theory Spec2Isabelle
  imports
    Main
    "HOL-Library.FSet"
    "HOL-Library.AList"
    "HOL-Library.Char_ord"
    "HOL-Library.List_Lexorder"
begin

section \<open>Values of the Terraform state\<close>

text \<open>
  The state is the result of \<^verbatim>\<open>json.loads\<close>: \<^verbatim>\<open>None\<close>, booleans, integers, strings,
  lists and dictionaries. A dictionary is an association list in the order of the document;
  \<^verbatim>\<open>json.loads\<close> gives one entry per key, so the keys of a dictionary of the state are
  distinct and a lookup is \<open>map_of\<close>. JSON reals are left out (the attributes read here are
  strings, lists and maps of strings). Strings are byte strings (UTF-8); comparing them
  lexicographically by byte is comparing Python strings by code point.
\<close>

datatype json =
    JNull
  | JBool bool
  | JInt int
  | JStr string
  | JList "json list"
  | JObj "(string \<times> json) list"

text \<open>
  The exceptions the code below can raise. \<open>SchemaMismatch\<close> is not a Python exception: it
  marks an attribute whose JSON type is not the one the Ansible provider's schema gives it
  (see \<open>as_name\<close> below), where the duck-typed code has no single behaviour to follow.
\<close>

datatype py_error = KeyError | TypeError | ValueError | AttributeError | SchemaMismatch

text \<open>\<^verbatim>\<open>obj[key]\<close> with a string key.\<close>

fun subscript :: "json \<Rightarrow> string \<Rightarrow> py_error + json" where
  "subscript (JObj kvs) k = (case map_of kvs k of None \<Rightarrow> Inl KeyError | Some v \<Rightarrow> Inr v)"
| "subscript _ k = Inl TypeError"

text \<open>Truth value of an object in an \<^verbatim>\<open>if\<close>.\<close>

fun truthy :: "json \<Rightarrow> bool" where
  "truthy JNull = False"
| "truthy (JBool b) = b"
| "truthy (JInt n) = (n \<noteq> 0)"
| "truthy (JStr s) = (s \<noteq> [])"
| "truthy (JList xs) = (xs \<noteq> [])"
| "truthy (JObj kvs) = (kvs \<noteq> [])"

subsection \<open>\<^verbatim>\<open>str(i)\<close> and \<^verbatim>\<open>int(x)\<close>\<close>

definition digit_char :: "nat \<Rightarrow> char" where
  "digit_char d = ''0123456789'' ! (d mod 10)"

text \<open>\<^verbatim>\<open>str(i)\<close> of a non-negative integer, as \<^verbatim>\<open>"{}.{}".format(key, i)\<close> prints it.\<close>

fun str_nat :: "nat \<Rightarrow> string" where
  "str_nat n = (if n < 10 then [digit_char n] else str_nat (n div 10) @ [digit_char (n mod 10)])"

declare str_nat.simps [simp del]

definition is_digit :: "char \<Rightarrow> bool" where
  "is_digit c = (c \<in> set ''0123456789'')"

definition digit_val :: "char \<Rightarrow> nat" where
  "digit_val c = of_char c - 48"

text \<open>
  \<^verbatim>\<open>int\<close> of a string works on its characters, not on its bytes: a character outside ASCII
  that is Unicode white space counts as a space, one that is a Unicode decimal digit counts
  as that digit, and any other makes the string invalid. So the bytes are first read back as
  characters (UTF-8): an ASCII character is itself, a longer sequence gives its code point,
  and a byte that starts no well-formed sequence gives the number past the last code point.
\<close>

datatype uchar = Ascii char | Wide nat

definition cont :: "char \<Rightarrow> bool" where
  "cont c = (128 \<le> (of_char c :: nat) \<and> (of_char c :: nat) < 192)"

definition cont_val :: "char \<Rightarrow> nat" where
  "cont_val c = of_char c - 128"

definition no_point :: nat where
  "no_point = 0x110000"

fun utf8_decode :: "string \<Rightarrow> uchar list" where
  "utf8_decode [] = []"
| "utf8_decode (a # cs) =
     (let x = (of_char a :: nat) in
      if x < 128 then Ascii a # utf8_decode cs
      else if 194 \<le> x \<and> x < 224 then
        (case cs of
           b # r \<Rightarrow>
             if cont b then Wide ((x - 192) * 64 + cont_val b) # utf8_decode r
             else Wide no_point # utf8_decode cs
         | _ \<Rightarrow> Wide no_point # utf8_decode cs)
      else if 224 \<le> x \<and> x < 240 then
        (case cs of
           b # c # r \<Rightarrow>
             if cont b \<and> cont c then
               (let n = (x - 224) * 4096 + cont_val b * 64 + cont_val c
                in Wide (if 0x800 \<le> n then n else no_point) # utf8_decode r)
             else Wide no_point # utf8_decode cs
         | _ \<Rightarrow> Wide no_point # utf8_decode cs)
      else if 240 \<le> x \<and> x < 245 then
        (case cs of
           b # c # d # r \<Rightarrow>
             if cont b \<and> cont c \<and> cont d then
               (let n = (x - 240) * 262144 + cont_val b * 4096 + cont_val c * 64 + cont_val d
                in Wide (if 0x10000 \<le> n \<and> n < 0x110000 then n else no_point) # utf8_decode r)
             else Wide no_point # utf8_decode cs
         | _ \<Rightarrow> Wide no_point # utf8_decode cs)
      else Wide no_point # utf8_decode cs)"

declare utf8_decode.simps(2) [simp del]

text \<open>
  The white space outside ASCII, and the code point of the digit zero of every run of
  decimal digits outside ASCII (Unicode 14.0, the tables of Python 3.11; an interpreter
  with other tables differs on the runs added between the two).
\<close>

definition uni_space :: "nat \<Rightarrow> bool" where
  "uni_space n =
     (n \<in> set [0x85, 0xA0, 0x1680, 0x2028, 0x2029, 0x202F, 0x205F, 0x3000] \<or>
      (0x2000 \<le> n \<and> n \<le> 0x200A))"

definition decimal_zeros :: "nat list" where
  "decimal_zeros =
     [0x660, 0x6F0, 0x7C0, 0x966, 0x9E6, 0xA66, 0xAE6, 0xB66, 0xBE6,
      0xC66, 0xCE6, 0xD66, 0xDE6, 0xE50, 0xED0, 0xF20, 0x1040, 0x1090,
      0x17E0, 0x1810, 0x1946, 0x19D0, 0x1A80, 0x1A90, 0x1B50, 0x1BB0, 0x1C40,
      0x1C50, 0xA620, 0xA8D0, 0xA900, 0xA9D0, 0xA9F0, 0xAA50, 0xABF0, 0xFF10,
      0x104A0, 0x10D30, 0x11066, 0x110F0, 0x11136, 0x111D0, 0x112F0, 0x11450, 0x114D0,
      0x11650, 0x116C0, 0x11730, 0x118E0, 0x11950, 0x11C50, 0x11D50, 0x11DA0, 0x16A60,
      0x16AC0, 0x16B50, 0x1D7CE, 0x1D7D8, 0x1D7E2, 0x1D7EC, 0x1D7F6, 0x1E140, 0x1E2F0,
      0x1E950, 0x1FBF0]"

definition uni_decimal :: "nat \<Rightarrow> nat option" where
  "uni_decimal n =
     (case filter (\<lambda>z. z \<le> n \<and> n < z + 10) decimal_zeros of
        [] \<Rightarrow> None
      | z # _ \<Rightarrow> Some (n - z))"

text \<open>The ASCII character that stands for a character when \<^verbatim>\<open>int\<close> reads the string.\<close>

fun to_ascii :: "uchar \<Rightarrow> char" where
  "to_ascii (Ascii c) = c"
| "to_ascii (Wide n) =
     (if uni_space n then CHR '' ''
      else case uni_decimal n of None \<Rightarrow> CHR ''?'' | Some d \<Rightarrow> digit_char d)"

text \<open>
  The ASCII characters skipped at both ends: tab, line feed, vertical tab, form feed,
  carriage return and space.
\<close>

definition is_space :: "char \<Rightarrow> bool" where
  "is_space c = (of_char c \<in> set [9, 10, 11, 12, 13, 32 :: nat])"

definition strip :: "string \<Rightarrow> string" where
  "strip s = rev (dropWhile is_space (rev (dropWhile is_space s)))"

text \<open>
  The digits of a decimal literal after its first digit: digits, each optionally preceded
  by one underscore (Python 3.6 and later).
\<close>

fun parse_digits :: "nat \<Rightarrow> string \<Rightarrow> nat option" where
  "parse_digits acc [] = Some acc"
| "parse_digits acc (c # cs) =
     (if is_digit c then parse_digits (acc * 10 + digit_val c) cs
      else if c = CHR ''_'' then
        (case cs of
           [] \<Rightarrow> None
         | d # ds \<Rightarrow> if is_digit d then parse_digits acc cs else None)
      else None)"

text \<open>The literal in ASCII: white space, an optional sign, the digits, white space.\<close>

definition parse_ascii :: "string \<Rightarrow> int option" where
  "parse_ascii s =
     (case strip s of
        [] \<Rightarrow> None
      | c # cs \<Rightarrow>
          (let neg = (c = CHR ''-'');
               body = (if c = CHR ''-'' \<or> c = CHR ''+'' then cs else c # cs)
           in case body of
                [] \<Rightarrow> None
              | d # ds \<Rightarrow>
                  if is_digit d then
                    (case parse_digits 0 body of
                       None \<Rightarrow> None
                     | Some n \<Rightarrow> Some (if neg then - int n else int n))
                  else None))"

text \<open>
  \<^verbatim>\<open>int(s)\<close> of a string, \<open>None\<close> for \<^verbatim>\<open>ValueError\<close>. The limit some interpreters put on
  the number of digits (4300 by default, from Python 3.11 on) is not part of it.
\<close>

definition parse_int :: "string \<Rightarrow> int option" where
  "parse_int s = parse_ascii (map to_ascii (utf8_decode s))"

text \<open>\<^verbatim>\<open>int(x)\<close>: a string is parsed, an integer is itself, a boolean is 0 or 1, and
  \<^verbatim>\<open>None\<close>, a list or a dictionary raise \<^verbatim>\<open>TypeError\<close>.\<close>

fun py_int :: "json \<Rightarrow> py_error + int" where
  "py_int (JStr s) = (case parse_int s of None \<Rightarrow> Inl ValueError | Some n \<Rightarrow> Inr n)"
| "py_int (JInt n) = Inr n"
| "py_int (JBool b) = Inr (if b then 1 else 0)"
| "py_int _ = Inl TypeError"

text \<open>
  The bytes a string that \<^verbatim>\<open>int\<close> accepts is made of: of ASCII the digits, the underscore,
  the signs and the white space, and the bytes of the characters outside ASCII.
\<close>

definition int_char :: "char \<Rightarrow> bool" where
  "int_char c =
     (is_digit c \<or> c = CHR ''_'' \<or> c = CHR ''+'' \<or> c = CHR ''-'' \<or> is_space c \<or>
      128 \<le> (of_char c :: nat))"

section \<open>TerraformResource\<close>

text \<open>
  \<open>resource_type\<close> is the field \<^verbatim>\<open>_type\<close> (\<open>JNull\<close> for \<^verbatim>\<open>None\<close>, the default of the
  constructor).
\<close>

record terraform_resource =
  flat_attrs :: bool
  resource_type :: json
  source_json :: json

definition TerraformResource :: "json \<Rightarrow> bool \<Rightarrow> json \<Rightarrow> terraform_resource" where
  "TerraformResource src flat rtype =
     \<lparr>flat_attrs = flat, resource_type = rtype, source_json = src\<rparr>"

text \<open>\<^verbatim>\<open>type()\<close>\<close>

definition tf_type :: "terraform_resource \<Rightarrow> py_error + json" where
  "tf_type r =
     (if truthy (resource_type r) then Inr (resource_type r)
      else subscript (source_json r) ''type'')"

text \<open>\<^verbatim>\<open>is_ansible()\<close>: only a string has \<^verbatim>\<open>startswith\<close>.\<close>

definition is_ansible :: "terraform_resource \<Rightarrow> py_error + bool" where
  "is_ansible r =
     (case tf_type r of
        Inl e \<Rightarrow> Inl e
      | Inr (JStr t) \<Rightarrow> Inr (take 8 t = ''ansible_'')
      | Inr _ \<Rightarrow> Inl AttributeError)"

text \<open>\<^verbatim>\<open>_raw_attributes()\<close>\<close>

definition raw_attributes :: "terraform_resource \<Rightarrow> py_error + json" where
  "raw_attributes r =
     (if flat_attrs r then
        (case subscript (source_json r) ''primary'' of
           Inl e \<Rightarrow> Inl e
         | Inr p \<Rightarrow> subscript p ''attributes'')
      else subscript (source_json r) ''attributes'')"

text \<open>\<^verbatim>\<open>attrs.get(key, default)\<close>: only a dictionary has \<^verbatim>\<open>get\<close>.\<close>

fun dict_get :: "json \<Rightarrow> string \<Rightarrow> json \<Rightarrow> py_error + json" where
  "dict_get (JObj kvs) k d = Inr (case map_of kvs k of None \<Rightarrow> d | Some v \<Rightarrow> v)"
| "dict_get _ k d = Inl AttributeError"

text \<open>\<^verbatim>\<open>read_attr(key)\<close>\<close>

definition read_attr :: "terraform_resource \<Rightarrow> string \<Rightarrow> py_error + json" where
  "read_attr r key =
     (case raw_attributes r of
        Inl e \<Rightarrow> Inl e
      | Inr attrs \<Rightarrow> dict_get attrs key JNull)"

text \<open>
  The loop of \<^verbatim>\<open>read_list_attr\<close> over \<^verbatim>\<open>range(0, length)\<close>: \<^verbatim>\<open>attrs[...]\<close> raises
  \<^verbatim>\<open>KeyError\<close> at the first index whose key is missing.
\<close>

fun read_items :: "(string \<times> json) list \<Rightarrow> string \<Rightarrow> nat list \<Rightarrow> py_error + json list" where
  "read_items attrs key [] = Inr []"
| "read_items attrs key (i # is) =
     (case map_of attrs (key @ ''.'' @ str_nat i) of
        None \<Rightarrow> Inl KeyError
      | Some v \<Rightarrow>
          (case read_items attrs key is of
             Inl e \<Rightarrow> Inl e
           | Inr vs \<Rightarrow> Inr (v # vs)))"

text \<open>\<^verbatim>\<open>read_list_attr(key)\<close>\<close>

definition read_list_attr :: "terraform_resource \<Rightarrow> string \<Rightarrow> py_error + json" where
  "read_list_attr r key =
     (case raw_attributes r of
        Inl e \<Rightarrow> Inl e
      | Inr attrs \<Rightarrow>
          if flat_attrs r then
            (case attrs of
               JObj kvs \<Rightarrow>
                 (case map_of kvs (key @ ''.#'') of
                    None \<Rightarrow> Inr (JList [])
                  | Some l \<Rightarrow>
                      (case py_int l of
                         Inl e \<Rightarrow> Inl e
                       | Inr len \<Rightarrow>
                           if len < 1 then Inr (JList [])
                           else (case read_items kvs key [0 ..< nat len] of
                                   Inl e \<Rightarrow> Inl e
                                 | Inr out \<Rightarrow> Inr (JList out))))
             | _ \<Rightarrow> Inl AttributeError)
          else dict_get attrs key JNull)"

text \<open>
  The pattern of \<^verbatim>\<open>read_dict_attr\<close>, \<^verbatim>\<open>re.match(r"^" + key + r"\.(.*)", k)\<close>: \<open>k\<close> has to
  start with the key and a dot, and the group is what follows up to the first line feed
  (\<^verbatim>\<open>.\<close> does not match a line feed, and \<^verbatim>\<open>match\<close> does not have to reach the end of
  \<open>k\<close>). The key is spliced into the pattern as it is; it is read here as literal text,
  which is what the pattern means for a key without regular-expression operators
  (\<open>literal_key\<close>), such as the \<^verbatim>\<open>"vars"\<close> the callers pass.
\<close>

definition literal_key :: "string \<Rightarrow> bool" where
  "literal_key key = (\<forall>c \<in> set key. c \<notin> set ''.^$*+?{}[]|()'' \<and> c \<noteq> CHR 0x5C)"

definition re_match_key :: "string \<Rightarrow> string \<Rightarrow> string option" where
  "re_match_key key k =
     (if take (length key + 1) k = key @ ''.''
      then Some (takeWhile (\<lambda>c. c \<noteq> CHR 0x0A) (drop (length key + 1) k))
      else None)"

text \<open>
  The loop of \<^verbatim>\<open>read_dict_attr\<close> over \<^verbatim>\<open>attrs.keys()\<close>, with \<open>out\<close> the dictionary built so
  far; \<^verbatim>\<open>out[g] = attrs[k]\<close> replaces the value of a key already there and appends a new key.
  The keys of \<open>attrs\<close> are distinct, so \<^verbatim>\<open>attrs[k]\<close> is the value listed with \<open>k\<close>.
\<close>

fun read_dict_loop ::
  "string \<Rightarrow> (string \<times> json) list \<Rightarrow> (string \<times> json) list \<Rightarrow> (string \<times> json) list"
where
  "read_dict_loop key [] out = out"
| "read_dict_loop key ((k, v) # kvs) out =
     (case re_match_key key k of
        None \<Rightarrow> read_dict_loop key kvs out
      | Some g \<Rightarrow>
          if g = ''%'' then read_dict_loop key kvs out
          else read_dict_loop key kvs (AList.update g v out))"

text \<open>\<^verbatim>\<open>read_dict_attr(key)\<close>\<close>

definition read_dict_attr :: "terraform_resource \<Rightarrow> string \<Rightarrow> py_error + json" where
  "read_dict_attr r key =
     (case raw_attributes r of
        Inl e \<Rightarrow> Inl e
      | Inr attrs \<Rightarrow>
          if flat_attrs r then
            (case attrs of
               JObj kvs \<Rightarrow> Inr (JObj (read_dict_loop key kvs []))
             | _ \<Rightarrow> Inl AttributeError)
          else dict_get attrs key (JObj []))"

section \<open>AnsibleHost and AnsibleGroup\<close>

text \<open>
  The sets of names are finite sets, the variable dictionaries are maps. An argument that
  is a list or \<^verbatim>\<open>None\<close> is a \<open>string list option\<close>, one that is a dictionary or \<^verbatim>\<open>None\<close> is an
  association list option. The fields \<^verbatim>\<open>groups\<close>, \<^verbatim>\<open>hosts\<close> and \<^verbatim>\<open>children\<close> carry the
  name of their class, since a field name is global here.
\<close>

type_synonym pyvars = "string \<rightharpoonup> json"

record ansible_host =
  hostname :: string
  host_groups :: "string fset"
  host_vars :: pyvars

record ansible_group =
  groupname :: string
  group_hosts :: "string fset"
  group_children :: "string fset"
  group_vars :: pyvars

text \<open>\<^verbatim>\<open>d.update(other)\<close>: the items of \<open>other\<close> are assigned in their order.\<close>

fun dict_update :: "pyvars \<Rightarrow> (string \<times> json) list \<Rightarrow> pyvars" where
  "dict_update d [] = d"
| "dict_update d ((k, v) # kvs) = dict_update (d(k \<mapsto> v)) kvs"

text \<open>\<^verbatim>\<open>AnsibleHost.update\<close>\<close>

definition host_update ::
  "ansible_host \<Rightarrow> string list option \<Rightarrow> (string \<times> json) list option \<Rightarrow> ansible_host"
where
  "host_update h groups hvars =
     (let h1 = (case hvars of
                  None \<Rightarrow> h
                | Some kvs \<Rightarrow>
                    if kvs \<noteq> [] then h\<lparr>host_vars := dict_update (host_vars h) kvs\<rparr> else h)
      in case groups of
           None \<Rightarrow> h1
         | Some gs \<Rightarrow>
             if gs \<noteq> [] then h1\<lparr>host_groups := host_groups h1 |\<union>| fset_of_list gs\<rparr> else h1)"

text \<open>\<^verbatim>\<open>AnsibleHost.__init__\<close>\<close>

definition AnsibleHost ::
  "string \<Rightarrow> string list option \<Rightarrow> (string \<times> json) list option \<Rightarrow> ansible_host"
where
  "AnsibleHost name groups hvars =
     host_update \<lparr>hostname = name, host_groups = {|''all''|}, host_vars = Map.empty\<rparr>
       groups hvars"

text \<open>\<^verbatim>\<open>AnsibleGroup.update\<close>\<close>

definition group_update ::
  "ansible_group \<Rightarrow> string list option \<Rightarrow> string list option \<Rightarrow>
   (string \<times> json) list option \<Rightarrow> ansible_group"
where
  "group_update g cs hs gvars =
     (let g1 = (case hs of
                  None \<Rightarrow> g
                | Some xs \<Rightarrow>
                    if xs \<noteq> [] then g\<lparr>group_hosts := group_hosts g |\<union>| fset_of_list xs\<rparr> else g);
          g2 = (case cs of
                  None \<Rightarrow> g1
                | Some xs \<Rightarrow>
                    if xs \<noteq> [] then g1\<lparr>group_children := group_children g1 |\<union>| fset_of_list xs\<rparr>
                    else g1)
      in case gvars of
           None \<Rightarrow> g2
         | Some kvs \<Rightarrow>
             if kvs \<noteq> [] then g2\<lparr>group_vars := dict_update (group_vars g2) kvs\<rparr> else g2)"

text \<open>\<^verbatim>\<open>AnsibleGroup.__init__\<close>\<close>

definition AnsibleGroup ::
  "string \<Rightarrow> string list option \<Rightarrow> string list option \<Rightarrow>
   (string \<times> json) list option \<Rightarrow> ansible_group"
where
  "AnsibleGroup name cs hs gvars =
     group_update
       \<lparr>groupname = name, group_hosts = {||}, group_children = {||}, group_vars = Map.empty\<rparr>
       cs hs gvars"

text \<open>
  \<^verbatim>\<open>tidy\<close> replaces each set by its sorted list. Nothing updates an object after that
  (\<^verbatim>\<open>to_dict\<close> is the last call of \<^verbatim>\<open>_main\<close>), so the tidied object has a type of its own.
\<close>

record tidy_host =
  tidy_hostname :: string
  tidy_host_groups :: "string list"
  tidy_host_vars :: pyvars

record tidy_group =
  tidy_groupname :: string
  tidy_group_hosts :: "string list"
  tidy_group_children :: "string list"
  tidy_group_vars :: pyvars

definition host_tidy :: "ansible_host \<Rightarrow> tidy_host" where
  "host_tidy h =
     \<lparr>tidy_hostname = hostname h,
      tidy_host_groups = sorted_list_of_fset (host_groups h),
      tidy_host_vars = host_vars h\<rparr>"

definition get_vars :: "tidy_host \<Rightarrow> pyvars" where
  "get_vars h = tidy_host_vars h"

definition group_tidy :: "ansible_group \<Rightarrow> tidy_group" where
  "group_tidy g =
     \<lparr>tidy_groupname = groupname g,
      tidy_group_hosts = sorted_list_of_fset (group_hosts g),
      tidy_group_children = sorted_list_of_fset (group_children g),
      tidy_group_vars = group_vars g\<rparr>"

text \<open>The dictionary of \<^verbatim>\<open>AnsibleGroup.to_dict\<close>, with its keys as fields.\<close>

record group_dict =
  children :: "string list"
  hosts :: "string list"
  vars :: pyvars

definition group_to_dict :: "tidy_group \<Rightarrow> group_dict" where
  "group_to_dict g =
     \<lparr>children = tidy_group_children g, hosts = tidy_group_hosts g, vars = tidy_group_vars g\<rparr>"

section \<open>AnsibleInventory\<close>

text \<open>The field \<^verbatim>\<open>inner_json\<close> is never read or written after the constructor and is left out.\<close>

record ansible_inventory =
  inv_groups :: "string \<rightharpoonup> ansible_group"
  inv_hosts :: "string \<rightharpoonup> ansible_host"

definition AnsibleInventory :: ansible_inventory where
  "AnsibleInventory = \<lparr>inv_groups = Map.empty, inv_hosts = Map.empty\<rparr>"

text \<open>\<^verbatim>\<open>update_groups\<close>\<close>

definition update_groups ::
  "ansible_inventory \<Rightarrow> string \<Rightarrow> string list option \<Rightarrow> string list option \<Rightarrow>
   (string \<times> json) list option \<Rightarrow> ansible_inventory"
where
  "update_groups iv name cs hs gvars =
     (case inv_groups iv name of
        Some g \<Rightarrow>
          iv\<lparr>inv_groups := (inv_groups iv)(name \<mapsto> group_update g cs hs gvars)\<rparr>
      | None \<Rightarrow>
          iv\<lparr>inv_groups := (inv_groups iv)(name \<mapsto> AnsibleGroup name cs hs gvars)\<rparr>)"

text \<open>
  \<^verbatim>\<open>update_hosts\<close>. The loop over the set \<^verbatim>\<open>host.groups\<close> runs in an order Python does not
  fix; the sorted order stands for it here (each round touches the group of its own name
  only, so the order does not show in the result).
\<close>

definition update_hosts ::
  "ansible_inventory \<Rightarrow> string \<Rightarrow> string list option \<Rightarrow> (string \<times> json) list option \<Rightarrow>
   ansible_inventory"
where
  "update_hosts iv name groups hvars =
     (let host = (case inv_hosts iv name of
                    Some h \<Rightarrow> host_update h groups hvars
                  | None \<Rightarrow> AnsibleHost name groups hvars);
          inv1 = iv\<lparr>inv_hosts := (inv_hosts iv)(name \<mapsto> host)\<rparr>
      in if host_groups host \<noteq> {||}
         then fold (\<lambda>g i. update_groups i g None (Some [name]) None)
                (sorted_list_of_fset (host_groups host)) inv1
         else inv1)"

subsection \<open>From resources to updates\<close>

text \<open>
  The arguments of the two updates as the provider's schema types them: a name is a string,
  a list of names is \<^verbatim>\<open>None\<close> or a list of strings, a variable dictionary is \<^verbatim>\<open>None\<close> or a
  dictionary. Any other JSON value is \<open>SchemaMismatch\<close>.
\<close>

fun as_name :: "json \<Rightarrow> py_error + string" where
  "as_name (JStr s) = Inr s"
| "as_name _ = Inl SchemaMismatch"

fun as_str_list :: "json list \<Rightarrow> py_error + string list" where
  "as_str_list [] = Inr []"
| "as_str_list (JStr s # xs) =
     (case as_str_list xs of Inl e \<Rightarrow> Inl e | Inr ss \<Rightarrow> Inr (s # ss))"
| "as_str_list (_ # xs) = Inl SchemaMismatch"

fun as_names :: "json \<Rightarrow> py_error + string list option" where
  "as_names JNull = Inr None"
| "as_names (JList xs) = (case as_str_list xs of Inl e \<Rightarrow> Inl e | Inr ss \<Rightarrow> Inr (Some ss))"
| "as_names _ = Inl SchemaMismatch"

fun as_vars :: "json \<Rightarrow> py_error + (string \<times> json) list option" where
  "as_vars JNull = Inr None"
| "as_vars (JObj kvs) = Inr (Some kvs)"
| "as_vars _ = Inl SchemaMismatch"

definition err_bind :: "py_error + 'a \<Rightarrow> ('a \<Rightarrow> py_error + 'b) \<Rightarrow> py_error + 'b" where
  "err_bind m f = (case m of Inl e \<Rightarrow> Inl e | Inr x \<Rightarrow> f x)"

text \<open>\<^verbatim>\<open>add_host_resource\<close>: the three reads come first, in the order of the code.\<close>

definition add_host_resource ::
  "ansible_inventory \<Rightarrow> terraform_resource \<Rightarrow> py_error + ansible_inventory"
where
  "add_host_resource iv r =
     err_bind (read_attr r ''inventory_hostname'') (\<lambda>name.
     err_bind (read_list_attr r ''groups'') (\<lambda>groups.
     err_bind (read_dict_attr r ''vars'') (\<lambda>hvars.
     err_bind (as_name name) (\<lambda>name'.
     err_bind (as_names groups) (\<lambda>groups'.
     err_bind (as_vars hvars) (\<lambda>hvars'.
       Inr (update_hosts iv name' groups' hvars')))))))"

text \<open>\<^verbatim>\<open>add_host_var_resource\<close>\<close>

definition add_host_var_resource ::
  "ansible_inventory \<Rightarrow> terraform_resource \<Rightarrow> py_error + ansible_inventory"
where
  "add_host_var_resource iv r =
     err_bind (read_attr r ''inventory_hostname'') (\<lambda>name.
     err_bind (read_attr r ''key'') (\<lambda>key.
     err_bind (read_attr r ''value'') (\<lambda>val.
     err_bind (as_name name) (\<lambda>name'.
     err_bind (as_name key) (\<lambda>key'.
       Inr (update_hosts iv name' None (Some [(key', val)])))))))"

text \<open>\<^verbatim>\<open>add_group_resource\<close>\<close>

definition add_group_resource ::
  "ansible_inventory \<Rightarrow> terraform_resource \<Rightarrow> py_error + ansible_inventory"
where
  "add_group_resource iv r =
     err_bind (read_attr r ''inventory_group_name'') (\<lambda>name.
     err_bind (read_list_attr r ''children'') (\<lambda>cs.
     err_bind (read_dict_attr r ''vars'') (\<lambda>gvars.
     err_bind (as_name name) (\<lambda>name'.
     err_bind (as_names cs) (\<lambda>cs'.
     err_bind (as_vars gvars) (\<lambda>gvars'.
       Inr (update_groups iv name' cs' None gvars')))))))"

text \<open>\<^verbatim>\<open>add_group_var_resource\<close>\<close>

definition add_group_var_resource ::
  "ansible_inventory \<Rightarrow> terraform_resource \<Rightarrow> py_error + ansible_inventory"
where
  "add_group_var_resource iv r =
     err_bind (read_attr r ''inventory_group_name'') (\<lambda>name.
     err_bind (read_attr r ''key'') (\<lambda>key.
     err_bind (read_attr r ''value'') (\<lambda>val.
     err_bind (as_name name) (\<lambda>name'.
     err_bind (as_name key) (\<lambda>key'.
       Inr (update_groups iv name' None None (Some [(key', val)])))))))"

text \<open>\<^verbatim>\<open>add_resource\<close>\<close>

definition add_resource ::
  "ansible_inventory \<Rightarrow> terraform_resource \<Rightarrow> py_error + ansible_inventory"
where
  "add_resource iv r =
     err_bind (tf_type r) (\<lambda>t.
       if t = JStr ''ansible_host'' then add_host_resource iv r
       else if t = JStr ''ansible_host_var'' then add_host_var_resource iv r
       else if t = JStr ''ansible_group'' then add_group_resource iv r
       else if t = JStr ''ansible_group_var'' then add_group_var_resource iv r
       else Inr iv)"

text \<open>One round of the loop of \<^verbatim>\<open>_main\<close>, and the loop.\<close>

definition process_resource ::
  "ansible_inventory \<Rightarrow> terraform_resource \<Rightarrow> py_error + ansible_inventory"
where
  "process_resource iv r =
     err_bind (is_ansible r) (\<lambda>b. if b then add_resource iv r else Inr iv)"

fun process_resources ::
  "ansible_inventory \<Rightarrow> terraform_resource list \<Rightarrow> py_error + ansible_inventory"
where
  "process_resources iv [] = Inr iv"
| "process_resources iv (r # rs) =
     err_bind (process_resource iv r) (\<lambda>iv'. process_resources iv' rs)"

subsection \<open>The inventory document\<close>

text \<open>
  \<^verbatim>\<open>to_dict\<close> returns a dictionary whose key \<^verbatim>\<open>"_meta"\<close> holds \<^verbatim>\<open>{"hostvars": ...}\<close> and whose
  other keys are the group names. The first loop fills \<^verbatim>\<open>hostvars\<close> with \<^verbatim>\<open>get_vars()\<close> of
  every tidied host; the second loop assigns \<^verbatim>\<open>out[groupname]\<close> for every group, after the
  first, so a group named \<^verbatim>\<open>"_meta"\<close> takes the place of the host variables.
\<close>

datatype out_entry = Meta "string \<rightharpoonup> pyvars" | Group group_dict

definition hostvars :: "ansible_inventory \<Rightarrow> string \<rightharpoonup> pyvars" where
  "hostvars iv = (\<lambda>name. map_option (\<lambda>h. get_vars (host_tidy h)) (inv_hosts iv name))"

definition to_dict :: "ansible_inventory \<Rightarrow> string \<rightharpoonup> out_entry" where
  "to_dict iv =
     (\<lambda>name. case inv_groups iv name of
        Some g \<Rightarrow> Some (Group (group_to_dict (group_tidy g)))
      | None \<Rightarrow> if name = ''_meta'' then Some (Meta (hostvars iv)) else None)"

text \<open>The hosts as \<^verbatim>\<open>to_dict\<close> leaves them, each tidied.\<close>

definition tidy_hosts :: "ansible_inventory \<Rightarrow> string \<rightharpoonup> tidy_host" where
  "tidy_hosts iv = (\<lambda>name. map_option host_tidy (inv_hosts iv name))"

text \<open>
  The inventories the two updates build from the empty one.
\<close>

inductive reachable :: "ansible_inventory \<Rightarrow> bool" where
  init: "reachable AnsibleInventory"
| hosts: "reachable s \<Longrightarrow> reachable (update_hosts s name groups hvars)"
| groups: "reachable s \<Longrightarrow> reachable (update_groups s name cs hs gvars)"

text \<open>
  Host and group agree on a membership: every group a host names exists and has the host
  among its hosts.
\<close>

definition membership_ok :: "ansible_inventory \<Rightarrow> bool" where
  "membership_ok iv =
     (\<forall>h host g. inv_hosts iv h = Some host \<and> g |\<in>| host_groups host \<longrightarrow>
        (\<exists>grp. inv_groups iv g = Some grp \<and> h |\<in>| group_hosts grp))"

text \<open>The items a \<^verbatim>\<open>None\<close>-or-list argument adds: none when it is \<^verbatim>\<open>None\<close>.\<close>

abbreviation (input) items :: "'a list option \<Rightarrow> 'a list" where
  "items x \<equiv> (case x of None \<Rightarrow> [] | Some xs \<Rightarrow> xs)"

section \<open>Example inputs\<close>

text \<open>A legacy-shape host resource with a flattened list of two groups.\<close>

definition legacy_groups :: terraform_resource where
  "legacy_groups =
     TerraformResource
       (JObj [(''type'', JStr ''ansible_host''),
              (''primary'', JObj [(''attributes'',
                 JObj [(''groups.#'', JStr ''2''), (''groups.0'', JStr ''a''),
                       (''groups.1'', JStr ''b'')])])])
       True JNull"

text \<open>Legacy-shape resources whose length marker is a negative number, and is a word.\<close>

definition negative_marker :: terraform_resource where
  "negative_marker =
     TerraformResource
       (JObj [(''type'', JStr ''ansible_host''),
              (''primary'', JObj [(''attributes'',
                 JObj [(''groups.#'', JStr ''-1''), (''groups.0'', JStr ''a'')])])])
       True JNull"

definition word_marker :: terraform_resource where
  "word_marker =
     TerraformResource
       (JObj [(''type'', JStr ''ansible_host''),
              (''primary'', JObj [(''attributes'',
                 JObj [(''groups.#'', JStr ''two''), (''groups.0'', JStr ''a'')])])])
       True JNull"

text \<open>
  Legacy-shape resources whose length marker is \<^verbatim>\<open>None\<close>, is \<^verbatim>\<open>"+2"\<close>, and is the
  Arabic-Indic digit two (U+0662, the bytes D9 A2).
\<close>

definition null_marker :: terraform_resource where
  "null_marker =
     TerraformResource
       (JObj [(''type'', JStr ''ansible_host''),
              (''primary'', JObj [(''attributes'', JObj [(''groups.#'', JNull)])])])
       True JNull"

definition plus_marker :: terraform_resource where
  "plus_marker =
     TerraformResource
       (JObj [(''type'', JStr ''ansible_host''),
              (''primary'', JObj [(''attributes'',
                 JObj [(''groups.#'', JStr ''+2''), (''groups.0'', JStr ''a''),
                       (''groups.1'', JStr ''b'')])])])
       True JNull"

definition arabic_marker :: terraform_resource where
  "arabic_marker =
     TerraformResource
       (JObj [(''type'', JStr ''ansible_host''),
              (''primary'', JObj [(''attributes'',
                 JObj [(''groups.#'', JStr [CHR 0xD9, CHR 0xA2]), (''groups.0'', JStr ''a''),
                       (''groups.1'', JStr ''b'')])])])
       True JNull"

text \<open>A legacy-shape resource with a flattened map whose one key holds a line feed.\<close>

definition newline_vars :: terraform_resource where
  "newline_vars =
     TerraformResource
       (JObj [(''type'', JStr ''ansible_host''),
              (''primary'', JObj [(''attributes'',
                 JObj [(''vars.%'', JStr ''1''),
                       (''vars.a'' @ [CHR 0x0A] @ ''b'', JStr ''x'')])])])
       True JNull"

text \<open>
  A current-shape host resource (host \<^verbatim>\<open>web1\<close> in the group \<^verbatim>\<open>webservers\<close>, with one
  variable), and the inventory it gives.
\<close>

definition web1 :: terraform_resource where
  "web1 =
     TerraformResource
       (JObj [(''attributes'',
          JObj [(''inventory_hostname'', JStr ''web1''),
                (''groups'', JList [JStr ''webservers'']),
                (''vars'', JObj [(''role'', JStr ''frontend'')])])])
       False (JStr ''ansible_host'')"

definition web1_inventory :: ansible_inventory where
  "web1_inventory =
     update_hosts AnsibleInventory ''web1'' (Some [''webservers''])
       (Some [(''role'', JStr ''frontend'')])"

text \<open>Two current-shape host variable resources for the same host and key.\<close>

definition db_port_1 :: terraform_resource where
  "db_port_1 =
     TerraformResource
       (JObj [(''attributes'',
          JObj [(''inventory_hostname'', JStr ''db1''), (''key'', JStr ''port''),
                (''value'', JStr ''5432'')])])
       False (JStr ''ansible_host_var'')"

definition db_port_2 :: terraform_resource where
  "db_port_2 =
     TerraformResource
       (JObj [(''attributes'',
          JObj [(''inventory_hostname'', JStr ''db1''), (''key'', JStr ''port''),
                (''value'', JStr ''6432'')])])
       False (JStr ''ansible_host_var'')"

text \<open>Two legacy-shape group variable resources for the same group and key.\<close>

definition web_env_1 :: terraform_resource where
  "web_env_1 =
     TerraformResource
       (JObj [(''type'', JStr ''ansible_group_var''),
              (''primary'', JObj [(''attributes'',
                 JObj [(''inventory_group_name'', JStr ''web''), (''key'', JStr ''env''),
                       (''value'', JStr ''staging'')])])])
       True JNull"

definition web_env_2 :: terraform_resource where
  "web_env_2 =
     TerraformResource
       (JObj [(''type'', JStr ''ansible_group_var''),
              (''primary'', JObj [(''attributes'',
                 JObj [(''inventory_group_name'', JStr ''web''), (''key'', JStr ''env''),
                       (''value'', JStr ''production'')])])])
       True JNull"

text \<open>
  A current-shape group resource for a group named \<^verbatim>\<open>_meta\<close>, and the inventory that the two
  host variable resources above and this one give.
\<close>

definition meta_group :: terraform_resource where
  "meta_group =
     TerraformResource
       (JObj [(''attributes'', JObj [(''inventory_group_name'', JStr ''_meta'')])])
       False (JStr ''ansible_group'')"

definition meta_inventory :: ansible_inventory where
  "meta_inventory =
     update_groups
       (update_hosts
          (update_hosts AnsibleInventory ''db1'' None (Some [(''port'', JStr ''5432'')]))
          ''db1'' None (Some [(''port'', JStr ''6432'')]))
       ''_meta'' None None (Some [])"

text \<open>
  A legacy-shape resource of another provider, and a current-shape resource whose type has
  the prefix and no handler; neither has attributes.
\<close>

definition aws_instance :: terraform_resource where
  "aws_instance =
     TerraformResource (JObj [(''type'', JStr ''aws_instance'')]) True JNull"

definition ansible_playbook :: terraform_resource where
  "ansible_playbook = TerraformResource (JObj []) False (JStr ''ansible_playbook'')"

section \<open>Reading attributes\<close>

subsection \<open>Decimal strings\<close>

lemma lt10_cases: "d < 10 \<Longrightarrow> d \<in> {0, 1, 2, 3, 4, 5, 6, 7, 8, 9::nat}"
  by auto

lemma digit_char_props:
  assumes "d < 10"
  shows "is_digit (digit_char d)" and "digit_val (digit_char d) = d"
    and "\<not> is_space (digit_char d)" and "digit_char d \<noteq> CHR ''-''" and "digit_char d \<noteq> CHR ''+''"
  using lt10_cases [OF assms]
  by (auto simp: digit_char_def is_digit_def digit_val_def is_space_def)

lemma str_nat_digits: "c \<in> set (str_nat n) \<Longrightarrow> is_digit c"
proof (induction n rule: str_nat.induct)
  case (1 n)
  show ?case
  proof (cases "n < 10")
    case True
    with "1.prems" show ?thesis
      by (subst (asm) str_nat.simps) (simp add: digit_char_props)
  next
    case False
    with "1.prems" "1.IH" show ?thesis
      by (subst (asm) str_nat.simps) (auto simp: digit_char_props)
  qed
qed

lemma str_nat_not_Nil: "str_nat n \<noteq> []"
  by (subst str_nat.simps) simp

lemma parse_digits_all:
  "\<forall>c \<in> set ds. is_digit c \<Longrightarrow>
   parse_digits acc ds = Some (fold (\<lambda>c a. a * 10 + digit_val c) ds acc)"
  by (induction ds arbitrary: acc) auto

lemma fold_str_nat: "fold (\<lambda>c a. a * 10 + digit_val c) (str_nat n) 0 = n"
proof (induction n rule: str_nat.induct)
  case (1 n)
  show ?case
  proof (cases "n < 10")
    case True
    then show ?thesis by (subst str_nat.simps) (simp add: digit_char_props)
  next
    case False
    then have "fold (\<lambda>c a. a * 10 + digit_val c) (str_nat n) 0
        = fold (\<lambda>c a. a * 10 + digit_val c) (str_nat (n div 10)) 0 * 10 + n mod 10"
      by (subst str_nat.simps) (simp add: digit_char_props)
    with False "1.IH" show ?thesis by simp
  qed
qed

lemma is_digit_not_space: "is_digit c \<Longrightarrow> \<not> is_space c"
  by (auto simp: is_digit_def is_space_def)

lemma strip_digits: "\<forall>c \<in> set s. is_digit c \<Longrightarrow> strip s = s"
proof -
  assume a: "\<forall>c \<in> set s. is_digit c"
  then have "dropWhile is_space s = s"
    by (cases s) (auto simp: is_digit_not_space)
  moreover from a have "dropWhile is_space (rev s) = rev s"
    by (cases "rev s") (auto simp: is_digit_not_space dest!: arg_cong [where f = set])
  ultimately show ?thesis by (simp add: strip_def)
qed

lemma parse_ascii_str_nat: "parse_ascii (str_nat n) = Some (int n)"
proof -
  have d: "\<forall>c \<in> set (str_nat n). is_digit c"
    by (simp add: str_nat_digits)
  obtain c cs where s: "str_nat n = c # cs"
    using str_nat_not_Nil [of n] by (cases "str_nat n") auto
  with d have c: "is_digit c" by auto
  then have "c \<noteq> CHR ''-''" "c \<noteq> CHR ''+''"
    by (auto simp: is_digit_def)
  with c s show ?thesis
    using parse_digits_all [OF d, of 0] fold_str_nat [of n] strip_digits [OF d]
    by (simp add: parse_ascii_def)
qed

text \<open>A string of ASCII characters is read as it is.\<close>

lemma utf8_decode_ascii:
  "(of_char a :: nat) < 128 \<Longrightarrow> utf8_decode (a # cs) = Ascii a # utf8_decode cs"
  by (simp add: utf8_decode.simps)

lemma to_ascii_decode:
  "\<forall>c \<in> set s. (of_char c :: nat) < 128 \<Longrightarrow> map to_ascii (utf8_decode s) = s"
  by (induction s) (simp_all add: utf8_decode_ascii)

lemma parse_int_ascii:
  "\<forall>c \<in> set s. (of_char c :: nat) < 128 \<Longrightarrow> parse_int s = parse_ascii s"
  by (simp add: parse_int_def to_ascii_decode)

lemma is_digit_ascii: "is_digit c \<Longrightarrow> (of_char c :: nat) < 128"
  by (auto simp: is_digit_def)

lemma parse_int_str_nat: "parse_int (str_nat n) = Some (int n)"
proof -
  have "\<forall>c \<in> set (str_nat n). (of_char c :: nat) < 128"
    by (simp add: str_nat_digits is_digit_ascii)
  then show ?thesis
    by (simp add: parse_int_ascii parse_ascii_str_nat)
qed

lemma read_items_all:
  "\<forall>i < length vs. map_of attrs (key @ ''.'' @ str_nat (m + i)) = Some (vs ! i) \<Longrightarrow>
   read_items attrs key [m ..< m + length vs] = Inr vs"
proof (induction vs arbitrary: m)
  case Nil
  then show ?case by simp
next
  case (Cons v vs)
  from Cons.prems have "map_of attrs (key @ ''.'' @ str_nat m) = Some v"
    by force
  moreover have "read_items attrs key [Suc m ..< Suc m + length vs] = Inr vs"
  proof (rule Cons.IH, intro allI impI)
    fix i assume "i < length vs"
    with Cons.prems [rule_format, of "Suc i"]
    show "map_of attrs (key @ ''.'' @ str_nat (Suc m + i)) = Some (vs ! i)" by simp
  qed
  moreover have "[m ..< m + length (v # vs)] = m # [Suc m ..< Suc m + length vs]"
    using upt_conv_Cons [of m "Suc m + length vs"] by (simp del: upt_Suc)
  ultimately show ?case
    by (simp del: upt_Suc)
qed

lemma read_items_upto:
  assumes "\<forall>i < length vs. map_of attrs (key @ ''.'' @ str_nat i) = Some (vs ! i)"
  shows "read_items attrs key [0 ..< length vs] = Inr vs"
  using read_items_all [of vs attrs key 0] assms by simp

text \<open>
  Claim C2. In a legacy-shape resource whose attributes hold, under \<open>key.#\<close>, the decimal
  string of an \<open>n \<ge> 1\<close>, and hold a value under each of \<open>key.0\<close> to \<open>key.(n-1)\<close>,
  \<open>read_list_attr\<close> returns exactly these \<open>n\<close> values in index order; when the marker is
  absent or is the string of 0 it returns the empty list.
\<close>

theorem read_list_attr_legacy:
  assumes "flat_attrs r" and "raw_attributes r = Inr (JObj attrs)"
  shows "(map_of attrs (key @ ''.#'') = Some (JStr (str_nat n)) \<and> 1 \<le> n \<and> length vs = n \<and>
          (\<forall>i < n. map_of attrs (key @ ''.'' @ str_nat i) = Some (vs ! i))
            \<longrightarrow> read_list_attr r key = Inr (JList vs)) \<and>
         (map_of attrs (key @ ''.#'') = None \<or>
          map_of attrs (key @ ''.#'') = Some (JStr (str_nat 0))
            \<longrightarrow> read_list_attr r key = Inr (JList []))"
proof (intro conjI impI)
  assume a: "map_of attrs (key @ ''.#'') = Some (JStr (str_nat n)) \<and> 1 \<le> n \<and> length vs = n \<and>
    (\<forall>i < n. map_of attrs (key @ ''.'' @ str_nat i) = Some (vs ! i))"
  then have "read_items attrs key [0 ..< n] = Inr vs"
    using read_items_upto [of vs attrs key] by auto
  with a assms show "read_list_attr r key = Inr (JList vs)"
    by (simp add: read_list_attr_def parse_int_str_nat)
next
  assume "map_of attrs (key @ ''.#'') = None \<or>
    map_of attrs (key @ ''.#'') = Some (JStr (str_nat 0))"
  with assms show "read_list_attr r key = Inr (JList [])"
    by (auto simp: read_list_attr_def parse_int_str_nat)
qed

lemma str_nat_small:
  "str_nat 0 = ''0''" "str_nat 1 = ''1''" "str_nat (Suc 0) = ''1''" "str_nat 2 = ''2''"
  by (simp_all add: str_nat.simps digit_char_def)

theorem read_list_attr_legacy_witness:
  "flat_attrs legacy_groups \<and>
   raw_attributes legacy_groups =
     Inr (JObj [(''groups.#'', JStr ''2''), (''groups.0'', JStr ''a''), (''groups.1'', JStr ''b'')]) \<and>
   read_list_attr legacy_groups ''groups'' = Inr (JList [JStr ''a'', JStr ''b'']) \<and>
   read_list_attr legacy_groups ''children'' = Inr (JList [])"
proof -
  let ?attrs = "[(''groups.#'', JStr ''2''), (''groups.0'', JStr ''a''), (''groups.1'', JStr ''b'')]"
  have f: "flat_attrs legacy_groups"
    by (simp add: legacy_groups_def TerraformResource_def)
  have a: "raw_attributes legacy_groups = Inr (JObj ?attrs)"
    by (simp add: legacy_groups_def TerraformResource_def raw_attributes_def)
  have i: "\<forall>i < 2. map_of ?attrs (''groups'' @ ''.'' @ str_nat i) = Some ([JStr ''a'', JStr ''b''] ! i)"
    by (auto simp: less_2_cases_iff str_nat_small)
  have "read_list_attr legacy_groups ''groups'' = Inr (JList [JStr ''a'', JStr ''b''])"
    using read_list_attr_legacy [OF f a, of "''groups''" 2 "[JStr ''a'', JStr ''b'']"] i
    by (simp add: str_nat_small)
  moreover have "read_list_attr legacy_groups ''children'' = Inr (JList [])"
    using read_list_attr_legacy [OF f a, of "''children''" 0 "[]"]
    by simp
  ultimately show ?thesis using f a by simp
qed

text \<open>When one of the \<open>n\<close> keys is missing, the read raises \<^verbatim>\<open>KeyError\<close>.\<close>

lemma read_items_missing:
  "i \<in> set is \<Longrightarrow> map_of attrs (key @ ''.'' @ str_nat i) = None \<Longrightarrow>
   read_items attrs key is = Inl KeyError"
  by (induction "is") (auto split: option.splits sum.splits)

lemma read_list_attr_missing_item:
  assumes "flat_attrs r" and "raw_attributes r = Inr (JObj attrs)"
    and "map_of attrs (key @ ''.#'') = Some (JStr (str_nat n))"
    and "i < n" and "map_of attrs (key @ ''.'' @ str_nat i) = None"
  shows "read_list_attr r key = Inl KeyError"
proof -
  from assms(4) have "i \<in> set [0 ..< n]" by simp
  then have "read_items attrs key [0 ..< n] = Inl KeyError"
    using assms(5) by (rule read_items_missing)
  with assms show ?thesis
    by (simp add: read_list_attr_def parse_int_str_nat)
qed

subsection \<open>Length markers that are not a length\<close>

lemma parse_ascii_neg: "parse_ascii (CHR ''-'' # str_nat n) = Some (- int n)"
proof -
  have d: "\<forall>c \<in> set (str_nat n). is_digit c"
    by (simp add: str_nat_digits)
  obtain c cs where s: "str_nat n = c # cs"
    using str_nat_not_Nil [of n] by (cases "str_nat n") auto
  obtain y ys where r: "rev (str_nat n) = y # ys"
    using str_nat_not_Nil [of n] by (cases "rev (str_nat n)") auto
  then have "y \<in> set (str_nat n)"
    by (metis list.set_intros(1) set_rev)
  with d have "\<not> is_space y"
    by (simp add: is_digit_not_space)
  then have "dropWhile is_space (rev (str_nat n) @ [CHR ''-'']) = rev (str_nat n) @ [CHR ''-'']"
    by (simp add: r)
  then have "strip (CHR ''-'' # str_nat n) = CHR ''-'' # str_nat n"
    by (simp add: strip_def is_space_def)
  moreover from d s have "is_digit c" by auto
  ultimately show ?thesis
    using parse_digits_all [OF d, of 0] fold_str_nat [of n] s
    by (simp add: parse_ascii_def)
qed

lemma parse_int_neg: "parse_int (CHR ''-'' # str_nat n) = Some (- int n)"
proof -
  have "\<forall>c \<in> set (CHR ''-'' # str_nat n). (of_char c :: nat) < 128"
    by (simp add: str_nat_digits is_digit_ascii)
  then show ?thesis
    by (simp only: parse_int_ascii parse_ascii_neg)
qed

lemma in_dropWhile: "x \<in> set xs \<Longrightarrow> \<not> P x \<Longrightarrow> x \<in> set (dropWhile P xs)"
  by (induction xs) auto

lemma in_strip: "c \<in> set s \<Longrightarrow> \<not> is_space c \<Longrightarrow> c \<in> set (strip s)"
  by (simp add: strip_def in_dropWhile)

lemma parse_digits_Cons:
  "parse_digits acc (d # ds) =
     (if is_digit d then parse_digits (acc * 10 + digit_val d) ds
      else if d = CHR ''_'' \<and> ds \<noteq> [] \<and> is_digit (hd ds) then parse_digits acc ds
      else None)"
  by (cases ds) simp_all

lemma parse_digits_bad:
  "c \<in> set ds \<Longrightarrow> \<not> is_digit c \<Longrightarrow> c \<noteq> CHR ''_'' \<Longrightarrow> parse_digits acc ds = None"
proof (induction ds arbitrary: acc)
  case Nil
  then show ?case by simp
next
  case (Cons d ds)
  show ?case
  proof (cases "c = d")
    case True
    with Cons.prems show ?thesis
      by (simp only: parse_digits_Cons if_False simp_thms)
  next
    case False
    with Cons.prems have "c \<in> set ds" by simp
    then have "parse_digits a ds = None" for a
      using Cons.IH Cons.prems by blast
    then show ?thesis
      by (simp only: parse_digits_Cons if_cancel split: if_splits)
  qed
qed

lemma parse_ascii_bad:
  assumes "c \<in> set s" and "\<not> int_char c"
  shows "parse_ascii s = None"
proof -
  from assms have c: "c \<in> set (strip s)" "\<not> is_digit c" "c \<noteq> CHR ''_''"
    "c \<noteq> CHR ''+''" "c \<noteq> CHR ''-''"
    by (auto simp: int_char_def in_strip)
  show ?thesis
  proof (cases "strip s")
    case Nil
    then show ?thesis by (simp add: parse_ascii_def)
  next
    case (Cons x xs)
    show ?thesis
    proof (cases "x = CHR ''-'' \<or> x = CHR ''+''")
      case True
      with c Cons have "c \<in> set xs" by auto
      with c have "parse_digits 0 xs = None"
        by (intro parse_digits_bad [of c]) simp_all
      with Cons True show ?thesis
        by (cases xs) (auto simp: parse_ascii_def simp del: parse_digits.simps)
    next
      case False
      from c Cons have "parse_digits 0 (x # xs) = None"
        by (intro parse_digits_bad [of c]) simp_all
      with Cons False show ?thesis
        by (simp add: parse_ascii_def del: parse_digits.simps)
    qed
  qed
qed

text \<open>An ASCII character of the string is a character of what \<^verbatim>\<open>int\<close> reads.\<close>


lemma utf8_decode_two:
  assumes "194 \<le> (of_char a :: nat)" "(of_char a :: nat) < 224"
  shows "(\<exists>n. utf8_decode (a # cs) = Wide n # utf8_decode cs) \<or>
         (\<exists>n b r. cs = b # r \<and> cont b \<and> utf8_decode (a # cs) = Wide n # utf8_decode r)"
proof (cases cs)
  case Nil
  with assms show ?thesis by (simp add: utf8_decode.simps)
next
  case (Cons b r)
  with assms show ?thesis by (cases "cont b") (simp_all add: utf8_decode.simps)
qed

lemma utf8_decode_three:
  assumes "224 \<le> (of_char a :: nat)" "(of_char a :: nat) < 240"
  shows "(\<exists>n. utf8_decode (a # cs) = Wide n # utf8_decode cs) \<or>
         (\<exists>n b c r. cs = b # c # r \<and> cont b \<and> cont c \<and>
            utf8_decode (a # cs) = Wide n # utf8_decode r)"
proof (cases cs)
  case Nil
  with assms show ?thesis by (simp add: utf8_decode.simps)
next
  case 1: (Cons b r1)
  show ?thesis
  proof (cases r1)
    case Nil
    with 1 assms show ?thesis by (simp add: utf8_decode.simps)
  next
    case (Cons c r)
    with 1 assms show ?thesis
      by (cases "cont b \<and> cont c") (simp_all add: utf8_decode.simps Let_def)
  qed
qed

lemma utf8_decode_four:
  assumes "240 \<le> (of_char a :: nat)" "(of_char a :: nat) < 245"
  shows "(\<exists>n. utf8_decode (a # cs) = Wide n # utf8_decode cs) \<or>
         (\<exists>n b c d r. cs = b # c # d # r \<and> cont b \<and> cont c \<and> cont d \<and>
            utf8_decode (a # cs) = Wide n # utf8_decode r)"
proof (cases cs)
  case Nil
  with assms show ?thesis by (simp add: utf8_decode.simps)
next
  case 1: (Cons b r1)
  show ?thesis
  proof (cases r1)
    case Nil
    with 1 assms show ?thesis by (simp add: utf8_decode.simps)
  next
    case 2: (Cons c r2)
    show ?thesis
    proof (cases r2)
      case Nil
      with 1 2 assms show ?thesis by (simp add: utf8_decode.simps)
    next
      case (Cons d r)
      with 1 2 assms show ?thesis
        by (cases "cont b \<and> cont c \<and> cont d") (simp_all add: utf8_decode.simps Let_def)
    qed
  qed
qed

lemma utf8_decode_other:
  assumes "128 \<le> (of_char a :: nat)"
    and "(of_char a :: nat) < 194 \<or> 245 \<le> (of_char a :: nat)"
  shows "utf8_decode (a # cs) = Wide no_point # utf8_decode cs"
  using assms by (auto simp: utf8_decode.simps)

lemma utf8_decode_keeps_ascii:
  "c \<in> set s \<Longrightarrow> (of_char c :: nat) < 128 \<Longrightarrow> Ascii c \<in> set (utf8_decode s)"
proof (induction "length s" arbitrary: s rule: less_induct)
  case less
  from less.prems(1) obtain a cs where s: "s = a # cs"
    by (cases s) auto
  have tail: "Ascii c \<in> set (utf8_decode t)" if "c \<in> set t" "length t \<le> length cs" for t
    using less.hyps [of t] that less.prems(2) s by simp
  show ?case
  proof (cases "(of_char a :: nat) < 128")
    case True
    with less.prems s tail [of cs] show ?thesis
      by (auto simp: utf8_decode_ascii)
  next
    case False
    with less.prems s have c: "c \<in> set cs" by auto
    have nc: "\<not> cont c"
      using less.prems(2) by (simp add: cont_def)
    consider "(of_char a :: nat) < 194 \<or> 245 \<le> (of_char a :: nat)"
      | "194 \<le> (of_char a :: nat)" "(of_char a :: nat) < 224"
      | "224 \<le> (of_char a :: nat)" "(of_char a :: nat) < 240"
      | "240 \<le> (of_char a :: nat)" "(of_char a :: nat) < 245"
      by linarith
    then show ?thesis
    proof cases
      case 1
      with False have "utf8_decode (a # cs) = Wide no_point # utf8_decode cs"
        by (intro utf8_decode_other) simp_all
      with s c tail [of cs] show ?thesis by simp
    next
      case 2
      from utf8_decode_two [OF 2, of cs] show ?thesis
      proof (elim disjE exE conjE)
        fix n assume "utf8_decode (a # cs) = Wide n # utf8_decode cs"
        with s c tail [of cs] show ?thesis by simp
      next
        fix n b r assume "cs = b # r" "cont b" "utf8_decode (a # cs) = Wide n # utf8_decode r"
        with s c nc tail [of r] show ?thesis by auto
      qed
    next
      case 3
      from utf8_decode_three [OF 3, of cs] show ?thesis
      proof (elim disjE exE conjE)
        fix n assume "utf8_decode (a # cs) = Wide n # utf8_decode cs"
        with s c tail [of cs] show ?thesis by simp
      next
        fix n b d r assume "cs = b # d # r" "cont b" "cont d"
          "utf8_decode (a # cs) = Wide n # utf8_decode r"
        with s c nc tail [of r] show ?thesis by auto
      qed
    next
      case 4
      from utf8_decode_four [OF 4, of cs] show ?thesis
      proof (elim disjE exE conjE)
        fix n assume "utf8_decode (a # cs) = Wide n # utf8_decode cs"
        with s c tail [of cs] show ?thesis by simp
      next
        fix n b d e r assume "cs = b # d # e # r" "cont b" "cont d" "cont e"
          "utf8_decode (a # cs) = Wide n # utf8_decode r"
        with s c nc tail [of r] show ?thesis by auto
      qed
    qed
  qed
qed

lemma parse_int_bad:
  assumes "c \<in> set s" and "\<not> int_char c"
  shows "parse_int s = None"
proof -
  from assms(2) have "(of_char c :: nat) < 128"
    by (simp add: int_char_def)
  with assms(1) have "Ascii c \<in> set (utf8_decode s)"
    by (rule utf8_decode_keeps_ascii)
  then have "to_ascii (Ascii c) \<in> to_ascii ` set (utf8_decode s)"
    by (rule imageI)
  then have "c \<in> set (map to_ascii (utf8_decode s))"
    by simp
  then show ?thesis
    unfolding parse_int_def using assms(2) by (rule parse_ascii_bad)
qed

text \<open>
  Claim C3, as amended. In a legacy-shape resource whose attributes hold a value under
  \<open>key.#\<close>, \<^verbatim>\<open>int\<close> of that value decides: when \<^verbatim>\<open>int\<close> raises, \<open>read_list_attr\<close> fails with
  that error; when \<^verbatim>\<open>int\<close> gives an integer below 1, \<open>read_list_attr\<close> returns the empty list;
  when \<^verbatim>\<open>int\<close> gives an \<open>n \<ge> 1\<close> and the keys \<open>key.0\<close> to \<open>key.(n-1)\<close> hold values, it returns
  these values. The error is \<open>ValueError\<close> (the spec's InvalidLength) for every string with an
  ASCII character that is not a digit, an underscore, a sign or white space, and the empty
  list is what the string of a negative integer gives.
\<close>

theorem read_list_attr_marker:
  assumes "flat_attrs r" and "raw_attributes r = Inr (JObj attrs)"
    and "map_of attrs (key @ ''.#'') = Some l"
  shows "(py_int l = Inl e \<longrightarrow> read_list_attr r key = Inl e) \<and>
         (py_int l = Inr n \<and> n < 1 \<longrightarrow> read_list_attr r key = Inr (JList [])) \<and>
         (py_int l = Inr (int (length vs)) \<and> 1 \<le> length vs \<and>
          (\<forall>i < length vs. map_of attrs (key @ ''.'' @ str_nat i) = Some (vs ! i))
            \<longrightarrow> read_list_attr r key = Inr (JList vs)) \<and>
         (l = JStr s \<and> (\<exists>c \<in> set s. \<not> int_char c) \<longrightarrow> read_list_attr r key = Inl ValueError) \<and>
         (l = JStr (CHR ''-'' # str_nat m) \<longrightarrow> read_list_attr r key = Inr (JList []))"
proof -
  have 1: "py_int l = Inl e \<longrightarrow> read_list_attr r key = Inl e"
    using assms by (simp add: read_list_attr_def)
  have 2: "py_int l = Inr n \<and> n < 1 \<longrightarrow> read_list_attr r key = Inr (JList [])"
    using assms by (simp add: read_list_attr_def)
  have 3: "py_int l = Inr (int (length vs)) \<and> 1 \<le> length vs \<and>
      (\<forall>i < length vs. map_of attrs (key @ ''.'' @ str_nat i) = Some (vs ! i))
        \<longrightarrow> read_list_attr r key = Inr (JList vs)"
  proof
    assume a: "py_int l = Inr (int (length vs)) \<and> 1 \<le> length vs \<and>
      (\<forall>i < length vs. map_of attrs (key @ ''.'' @ str_nat i) = Some (vs ! i))"
    then have "read_items attrs key [0 ..< length vs] = Inr vs"
      using read_items_upto [of vs attrs key] by simp
    with a assms show "read_list_attr r key = Inr (JList vs)"
      by (simp add: read_list_attr_def)
  qed
  have 4: "l = JStr s \<and> (\<exists>c \<in> set s. \<not> int_char c) \<longrightarrow> read_list_attr r key = Inl ValueError"
    using assms by (auto simp: read_list_attr_def parse_int_bad)
  have 5: "l = JStr (CHR ''-'' # str_nat m) \<longrightarrow> read_list_attr r key = Inr (JList [])"
    using assms by (simp add: read_list_attr_def parse_int_neg)
  show ?thesis
    by (rule conjI [OF 1 conjI [OF 2 conjI [OF 3 conjI [OF 4 5]]]])
qed

text \<open>
  Claim C3 as stated fails: the marker \<^verbatim>\<open>"-1"\<close> is not the string of a non-negative integer,
  and \<open>read_list_attr\<close> returns the empty list (the guard \<^verbatim>\<open>length < 1\<close>).
\<close>

theorem read_list_attr_negative_marker:
  "raw_attributes negative_marker =
     Inr (JObj [(''groups.#'', JStr ''-1''), (''groups.0'', JStr ''a'')]) \<and>
   read_list_attr negative_marker ''groups'' = Inr (JList [])"
  by (simp add: negative_marker_def TerraformResource_def raw_attributes_def read_list_attr_def
      parse_int_def parse_ascii_def utf8_decode.simps strip_def is_space_def is_digit_def
      digit_val_def)

text \<open>\<^verbatim>\<open>int\<close> at some values, among them strings with characters outside ASCII.\<close>

lemmas int_eval =
  parse_int_def parse_ascii_def strip_def is_space_def is_digit_def digit_val_def
  utf8_decode.simps cont_def cont_val_def no_point_def uni_space_def uni_decimal_def
  decimal_zeros_def digit_char_def Let_def

lemma py_int_examples:
  "py_int (JStr ''two'') = Inl ValueError"
  "py_int (JStr ''-1'') = Inr (- 1)"
  "py_int (JStr ''+2'') = Inr 2"
  "py_int (JStr [CHR 0xD9, CHR 0xA2]) = Inr 2"
  "py_int (JStr [CHR 0xC2, CHR 0xA0, CHR ''2'']) = Inr 2"
  "py_int (JStr [CHR 0x1C, CHR ''0'']) = Inl ValueError"
  "py_int JNull = Inl TypeError"
  by (simp_all add: int_eval)

theorem read_list_attr_marker_witness:
  "read_list_attr word_marker ''groups'' = Inl ValueError \<and>
   read_list_attr null_marker ''groups'' = Inl TypeError \<and>
   read_list_attr negative_marker ''groups'' = Inr (JList []) \<and>
   read_list_attr plus_marker ''groups'' = Inr (JList [JStr ''a'', JStr ''b'']) \<and>
   read_list_attr arabic_marker ''groups'' = Inr (JList [JStr ''a'', JStr ''b''])"
proof -
  have f: "flat_attrs word_marker" "flat_attrs null_marker" "flat_attrs negative_marker"
    "flat_attrs plus_marker" "flat_attrs arabic_marker"
    by (simp_all add: word_marker_def null_marker_def negative_marker_def plus_marker_def
        arabic_marker_def TerraformResource_def)
  have a: "raw_attributes word_marker =
      Inr (JObj [(''groups.#'', JStr ''two''), (''groups.0'', JStr ''a'')])"
    by (simp add: word_marker_def TerraformResource_def raw_attributes_def)
  have b: "raw_attributes negative_marker =
      Inr (JObj [(''groups.#'', JStr ''-1''), (''groups.0'', JStr ''a'')])"
    by (simp add: negative_marker_def TerraformResource_def raw_attributes_def)
  have c: "raw_attributes null_marker = Inr (JObj [(''groups.#'', JNull)])"
    by (simp add: null_marker_def TerraformResource_def raw_attributes_def)
  have d: "raw_attributes plus_marker =
      Inr (JObj [(''groups.#'', JStr ''+2''), (''groups.0'', JStr ''a''),
                 (''groups.1'', JStr ''b'')])"
    by (simp add: plus_marker_def TerraformResource_def raw_attributes_def)
  have e: "raw_attributes arabic_marker =
      Inr (JObj [(''groups.#'', JStr [CHR 0xD9, CHR 0xA2]), (''groups.0'', JStr ''a''),
                 (''groups.1'', JStr ''b'')])"
    by (simp add: arabic_marker_def TerraformResource_def raw_attributes_def)
  have "\<forall>i < 2.
      map_of [(''groups.#'', l), (''groups.0'', JStr ''a''), (''groups.1'', JStr ''b'')]
        (''groups'' @ ''.'' @ str_nat i) = Some ([JStr ''a'', JStr ''b''] ! i)" for l
    by (auto simp: less_2_cases_iff str_nat_small)
  then have i: "\<forall>i < length [JStr ''a'', JStr ''b''].
      map_of [(''groups.#'', l), (''groups.0'', JStr ''a''), (''groups.1'', JStr ''b'')]
        (''groups'' @ ''.'' @ str_nat i) = Some ([JStr ''a'', JStr ''b''] ! i)" for l
    by simp
  have "\<not> int_char CHR ''t''"
    by (simp add: int_char_def is_digit_def is_space_def)
  then have 1: "read_list_attr word_marker ''groups'' = Inl ValueError"
    using read_list_attr_marker [OF f(1) a, where key = "''groups''" and l = "JStr ''two''"
        and s = "''two''"]
    by simp
  have 2: "read_list_attr null_marker ''groups'' = Inl TypeError"
    using read_list_attr_marker [OF f(2) c, where key = "''groups''" and l = JNull
        and e = TypeError]
    by simp
  have 3: "read_list_attr negative_marker ''groups'' = Inr (JList [])"
    using read_list_attr_marker [OF f(3) b, where key = "''groups''" and l = "JStr ''-1''"
        and n = "- 1" and m = 1]
    by (simp add: str_nat_small py_int_examples)
  have l2: "1 \<le> length [JStr ''a'', JStr ''b'']"
    by simp
  have p: "py_int (JStr ''+2'') = Inr (int (length [JStr ''a'', JStr ''b'']))"
    "py_int (JStr [CHR 0xD9, CHR 0xA2]) = Inr (int (length [JStr ''a'', JStr ''b'']))"
    by (simp_all only: py_int_examples) simp_all
  have m: "map_of [(''groups.#'', l), (''groups.0'', JStr ''a''), (''groups.1'', JStr ''b'')]
      (''groups'' @ ''.#'') = Some l" for l
    by simp
  have 4: "read_list_attr plus_marker ''groups'' = Inr (JList [JStr ''a'', JStr ''b''])"
    using read_list_attr_marker [OF f(4) d m, where vs = "[JStr ''a'', JStr ''b'']"]
      p(1) l2 i [of "JStr ''+2''"]
    by blast
  have 5: "read_list_attr arabic_marker ''groups'' = Inr (JList [JStr ''a'', JStr ''b''])"
    using read_list_attr_marker [OF f(5) e m, where vs = "[JStr ''a'', JStr ''b'']"]
      p(2) l2 i [of "JStr [CHR 0xD9, CHR 0xA2]"]
    by blast
  from 1 2 3 4 5 show ?thesis by simp
qed

subsection \<open>Flattened maps\<close>

text \<open>
  Claim C4 at a map whose key holds a line feed: for the attribute \<^verbatim>\<open>"vars.a\nb"\<close> the claim
  has the entry \<^verbatim>\<open>"a\nb"\<close>, and \<open>read_dict_attr\<close> returns the entry \<^verbatim>\<open>"a"\<close>.
\<close>

theorem read_dict_attr_newline_key:
  "read_dict_attr newline_vars ''vars'' = Inr (JObj [(''a'', JStr ''x'')])"
  by (simp add: newline_vars_def TerraformResource_def read_dict_attr_def raw_attributes_def
      re_match_key_def)

lemma re_match_key_dotted:
  "CHR 0x0A \<notin> set sub \<Longrightarrow> re_match_key key (key @ ''.'' @ sub) = Some sub"
  by (auto simp: re_match_key_def takeWhile_eq_all_conv)

lemma re_match_key_Some:
  assumes "re_match_key key k = Some g" and "CHR 0x0A \<notin> set k"
  shows "k = key @ ''.'' @ g"
proof -
  from assms(1) have t: "take (length key + 1) k = key @ ''.''"
    and g: "g = takeWhile (\<lambda>c. c \<noteq> CHR 0x0A) (drop (length key + 1) k)"
    by (auto simp: re_match_key_def split: if_splits)
  from assms(2) have "CHR 0x0A \<notin> set (drop (length key + 1) k)"
    by (auto dest: in_set_dropD)
  with g have "g = drop (length key + 1) k"
    by (auto simp: takeWhile_eq_all_conv)
  with t show ?thesis
    using append_take_drop_id [of "length key + 1" k] by simp
qed

lemma re_match_key_None: "re_match_key key k = None \<Longrightarrow> k \<noteq> key @ ''.'' @ sub"
  by (auto simp: re_match_key_def split: if_splits)

lemma read_dict_loop_distinct:
  "distinct (map fst out) \<Longrightarrow> distinct (map fst (read_dict_loop key kvs out))"
  by (induction key kvs out rule: read_dict_loop.induct) (auto simp: distinct_update split: option.splits)

lemma re_match_key_group: "re_match_key key k = Some g \<Longrightarrow> CHR 0x0A \<notin> set g"
  by (auto simp: re_match_key_def split: if_splits dest: set_takeWhileD)

lemma read_dict_loop_keys:
  "sub \<in> fst ` set (read_dict_loop key kvs out) \<Longrightarrow>
   sub \<in> fst ` set out \<or> CHR 0x0A \<notin> set sub"
proof (induction key kvs out rule: read_dict_loop.induct)
  case (1 key out)
  then show ?case by simp
next
  case (2 key k v kvs out)
  show ?case
  proof (cases "re_match_key key k")
    case None
    with 2 show ?thesis by simp
  next
    case (Some g)
    with 2 re_match_key_group [OF Some] show ?thesis
      by (cases "g = ''%''") (auto simp: dom_update)
  qed
qed

lemma read_dict_loop_lookup:
  assumes "distinct (map fst kvs)" and "\<forall>k \<in> set (map fst kvs). CHR 0x0A \<notin> set k"
    and "CHR 0x0A \<notin> set sub"
  shows "map_of (read_dict_loop key kvs out) sub =
           (case (if sub = ''%'' then None else map_of kvs (key @ ''.'' @ sub)) of
              None \<Rightarrow> map_of out sub
            | Some v \<Rightarrow> Some v)"
  using assms
proof (induction key kvs out rule: read_dict_loop.induct)
  case (1 key out)
  then show ?case by simp
next
  case (2 key k v kvs out)
  then have nk: "map_of kvs k = None" and nl: "CHR 0x0A \<notin> set k"
    by (auto simp: map_of_eq_None_iff)
  show ?case
  proof (cases "re_match_key key k")
    case None
    with 2 re_match_key_None [OF None, of sub] show ?thesis by auto
  next
    case (Some g)
    then have k: "k = key @ ''.'' @ g"
      using nl by (rule re_match_key_Some)
    show ?thesis
    proof (cases "g = ''%''")
      case True
      with 2 Some k show ?thesis by auto
    next
      case False
      with 2 Some k nk show ?thesis
        by (auto simp: update_conv' split: option.splits)
    qed
  qed
qed

text \<open>
  For a key without regular-expression operators, and where no attribute key holds a line
  feed, the flattened map is read back whole: the result has the entry \<open>sub \<mapsto> v\<close> for every
  attribute \<open>key.sub \<mapsto> v\<close> but the marker \<open>key.%\<close>, each once, and no other entry.
\<close>

lemma read_dict_attr_legacy_plain:
  assumes "flat_attrs r" and "raw_attributes r = Inr (JObj attrs)"
    and "distinct (map fst attrs)" and "\<forall>k \<in> set (map fst attrs). CHR 0x0A \<notin> set k"
    and "literal_key key"
  shows "\<exists>out. read_dict_attr r key = Inr (JObj out) \<and> distinct (map fst out) \<and>
           (\<forall>sub. map_of out sub =
              (if sub = ''%'' then None else map_of attrs (key @ ''.'' @ sub)))"
proof -
  let ?out = "read_dict_loop key attrs []"
  have "map_of ?out sub =
      (if sub = ''%'' then None else map_of attrs (key @ ''.'' @ sub))" for sub
  proof (cases "CHR 0x0A \<in> set sub")
    case False
    then show ?thesis
      using read_dict_loop_lookup [OF assms(3,4), of sub key "[]"] by (auto split: option.splits)
  next
    case True
    with read_dict_loop_keys [of sub key attrs "[]"] have "map_of ?out sub = None"
      by (auto simp: map_of_eq_None_iff)
    moreover from True assms(4) have "key @ ''.'' @ sub \<notin> fst ` set attrs"
      by force
    then have "map_of attrs (key @ ''.'' @ sub) = None"
      by (simp add: map_of_eq_None_iff)
    ultimately show ?thesis
      by simp
  qed
  moreover have "distinct (map fst ?out)"
    by (simp add: read_dict_loop_distinct)
  ultimately show ?thesis
    using assms(1,2) by (simp add: read_dict_attr_def)
qed

section \<open>The inventory\<close>

subsection \<open>What the updates change\<close>

lemma dict_update_map_add: "dict_update d kvs = d ++ map_of (rev kvs)"
proof (induction d kvs rule: dict_update.induct)
  case (1 d)
  then show ?case by simp
next
  case (2 d k v kvs)
  have "d(k \<mapsto> v) ++ map_of (rev kvs) = d ++ map_of (rev ((k, v) # kvs))"
    by (rule ext) (simp add: map_add_def split: option.splits)
  with 2 show ?case
    by (simp only: dict_update.simps)
qed

lemma dict_update_idem: "dict_update (dict_update d kvs) kvs = dict_update d kvs"
  unfolding dict_update_map_add
  by (rule ext) (simp add: map_add_def split: option.splits)

lemma host_update_eq:
  "host_update h gs vs =
     h\<lparr>host_vars := dict_update (host_vars h) (items vs),
       host_groups := host_groups h |\<union>| fset_of_list (items gs)\<rparr>"
  by (cases gs; cases vs) (simp_all add: host_update_def)

lemma group_update_eq:
  "group_update g cs hs vs =
     g\<lparr>group_hosts := group_hosts g |\<union>| fset_of_list (items hs),
       group_children := group_children g |\<union>| fset_of_list (items cs),
       group_vars := dict_update (group_vars g) (items vs)\<rparr>"
  by (cases cs; cases hs; cases vs) (simp_all add: group_update_def)

lemma update_groups_eq:
  "update_groups iv n cs hs vs =
     iv\<lparr>inv_groups := (inv_groups iv)
        (n \<mapsto> group_update
           (case inv_groups iv n of None \<Rightarrow> AnsibleGroup n None None None | Some g \<Rightarrow> g)
           cs hs vs)\<rparr>"
  by (simp add: update_groups_def AnsibleGroup_def group_update_eq split: option.splits)

lemma inv_hosts_update_groups [simp]: "inv_hosts (update_groups iv n cs hs vs) = inv_hosts iv"
  by (simp add: update_groups_eq)

lemma fold_update_groups_hosts [simp]:
  "inv_hosts (fold (\<lambda>g i. update_groups i g None (Some [name]) None) gs iv) = inv_hosts iv"
  by (induction gs arbitrary: iv) simp_all

lemma fold_update_groups_groups:
  "inv_groups (fold (\<lambda>g i. update_groups i g None (Some [name]) None) gs iv) g =
     (if g \<in> set gs
      then Some (group_update
             (case inv_groups iv g of None \<Rightarrow> AnsibleGroup g None None None | Some grp \<Rightarrow> grp)
             None (Some [name]) None)
      else inv_groups iv g)"
proof (induction gs arbitrary: iv)
  case Nil
  then show ?case by simp
next
  case (Cons a gs)
  show ?case
    by (simp add: Cons.IH) (auto simp: update_groups_eq group_update_eq)
qed

lemma update_hosts_hosts:
  "inv_hosts (update_hosts iv n gs vs) =
     (inv_hosts iv)(n \<mapsto> host_update
        (case inv_hosts iv n of None \<Rightarrow> AnsibleHost n None None | Some h \<Rightarrow> h) gs vs)"
  by (simp add: update_hosts_def Let_def AnsibleHost_def host_update_eq split: option.splits)

lemma update_hosts_groups:
  "inv_groups (update_hosts iv n gs vs) g =
     (if g |\<in>| host_groups (host_update
            (case inv_hosts iv n of None \<Rightarrow> AnsibleHost n None None | Some h \<Rightarrow> h) gs vs)
      then Some (group_update
             (case inv_groups iv g of None \<Rightarrow> AnsibleGroup g None None None | Some grp \<Rightarrow> grp)
             None (Some [n]) None)
      else inv_groups iv g)"
  by (auto simp: update_hosts_def Let_def AnsibleHost_def host_update_eq
      fold_update_groups_groups split: option.splits)

subsection \<open>Membership\<close>

lemma reachable_all:
  "reachable iv \<Longrightarrow> inv_hosts iv h = Some host \<Longrightarrow> ''all'' |\<in>| host_groups host"
proof (induction arbitrary: h host rule: reachable.induct)
  case init
  then show ?case by (simp add: AnsibleInventory_def)
next
  case (hosts s name groups hvars)
  then show ?case
    by (auto simp: update_hosts_hosts host_update_eq AnsibleHost_def
        split: if_splits option.splits)
next
  case (groups s name cs hs gvars)
  then show ?case by simp
qed

lemma membership_ok_init: "membership_ok AnsibleInventory"
  by (simp add: membership_ok_def AnsibleInventory_def)

lemma membership_ok_update_hosts:
  assumes "membership_ok iv"
  shows "membership_ok (update_hosts iv n gs vs)"
  unfolding membership_ok_def
proof (intro allI impI, elim conjE)
  fix h host g
  assume h: "inv_hosts (update_hosts iv n gs vs) h = Some host" and g: "g |\<in>| host_groups host"
  let ?host = "host_update
     (case inv_hosts iv n of None \<Rightarrow> AnsibleHost n None None | Some h \<Rightarrow> h) gs vs"
  show "\<exists>grp. inv_groups (update_hosts iv n gs vs) g = Some grp \<and> h |\<in>| group_hosts grp"
  proof (cases "h = n")
    case True
    with h have "host = ?host"
      by (simp add: update_hosts_hosts)
    with g True show ?thesis
      by (simp add: update_hosts_groups group_update_eq)
  next
    case False
    with h have "inv_hosts iv h = Some host"
      by (simp add: update_hosts_hosts)
    with assms g obtain grp where "inv_groups iv g = Some grp" "h |\<in>| group_hosts grp"
      unfolding membership_ok_def by blast
    then show ?thesis
      by (simp add: update_hosts_groups group_update_eq)
  qed
qed

lemma membership_ok_update_groups:
  assumes "membership_ok iv"
  shows "membership_ok (update_groups iv n cs hs gv)"
  unfolding membership_ok_def
proof (intro allI impI, elim conjE)
  fix h host g
  assume "inv_hosts (update_groups iv n cs hs gv) h = Some host" and "g |\<in>| host_groups host"
  with assms obtain grp where "inv_groups iv g = Some grp" "h |\<in>| group_hosts grp"
    unfolding membership_ok_def by fastforce
  then show "\<exists>grp. inv_groups (update_groups iv n cs hs gv) g = Some grp \<and> h |\<in>| group_hosts grp"
    by (auto simp: update_groups_eq group_update_eq)
qed

lemma reachable_membership_ok: "reachable iv \<Longrightarrow> membership_ok iv"
  by (induction rule: reachable.induct)
    (simp_all add: membership_ok_init membership_ok_update_hosts membership_ok_update_groups)

lemma to_dict_group:
  "inv_groups iv g = Some grp \<Longrightarrow> to_dict iv g = Some (Group (group_to_dict (group_tidy grp)))"
  by (simp add: to_dict_def)

text \<open>
  Claim C10. That for every host of the inventory and every group name in the host's
  membership set, a group of that name exists and has the host's name in its set of hosts
  (\<open>membership_ok\<close>), is an invariant: it holds in the empty inventory, \<open>update_hosts\<close> and
  \<open>update_groups\<close> keep it, and so it holds in every inventory the two build from the empty
  one, in any sequence.
\<close>

theorem membership_invariant:
  "membership_ok AnsibleInventory \<and>
   (membership_ok iv \<longrightarrow> membership_ok (update_hosts iv n gs vs)) \<and>
   (membership_ok iv \<longrightarrow> membership_ok (update_groups iv n cs hs gv)) \<and>
   (reachable iv \<longrightarrow> membership_ok iv)"
proof (intro conjI impI)
  show "membership_ok AnsibleInventory"
    by (rule membership_ok_init)
  show "membership_ok (update_hosts iv n gs vs)" if "membership_ok iv"
    using that by (rule membership_ok_update_hosts)
  show "membership_ok (update_groups iv n cs hs gv)" if "membership_ok iv"
    using that by (rule membership_ok_update_groups)
  show "membership_ok iv" if "reachable iv"
    using that
  proof (induction rule: reachable.induct)
    case init
    show ?case by (rule membership_ok_init)
  next
    case (hosts s name groups hvars)
    then show ?case by (simp add: membership_ok_update_hosts)
  next
    case (groups s name cs hs gvars)
    then show ?case by (simp add: membership_ok_update_groups)
  qed
qed

text \<open>
  Claim C1. In every inventory built from the empty one by the two updates, every host of
  the inventory (every name \<open>update_hosts\<close> was called with, as host resources and host
  variable resources do) is in the \<^verbatim>\<open>hosts\<close> list of the group \<^verbatim>\<open>all\<close> of the document
  \<open>to_dict\<close> returns, whether or not a resource put it there.
\<close>

theorem universal_group:
  assumes "reachable iv" and "inv_hosts iv h \<noteq> None"
  shows "\<exists>d. to_dict iv ''all'' = Some (Group d) \<and> h \<in> set (hosts d)"
proof -
  from assms(2) obtain host where host: "inv_hosts iv h = Some host" by auto
  with assms(1) have "''all'' |\<in>| host_groups host"
    by (rule reachable_all)
  moreover from assms(1) have "membership_ok iv"
    by (rule reachable_membership_ok)
  ultimately obtain grp where "inv_groups iv ''all'' = Some grp" "h |\<in>| group_hosts grp"
    using host unfolding membership_ok_def by blast
  then show ?thesis
    by (simp add: to_dict_group group_to_dict_def group_tidy_def)
qed

text \<open>A host is in the inventory from its first \<open>update_hosts\<close> on.\<close>

lemma update_hosts_upserts: "inv_hosts (update_hosts iv n gs vs) n \<noteq> None"
  by (simp add: update_hosts_hosts)

lemma hosts_kept:
  assumes "inv_hosts iv h \<noteq> None"
  shows "inv_hosts (update_hosts iv n gs vs) h \<noteq> None"
    and "inv_hosts (update_groups iv n cs hs gv) h \<noteq> None"
  using assms by (simp_all add: update_hosts_hosts)

subsection \<open>Processing resources\<close>

lemma err_bind_simps [simp]:
  "err_bind (Inl e) f = Inl e" "err_bind (Inr x) f = f x"
  by (simp_all add: err_bind_def)

lemma err_bind_Inr: "err_bind m f = Inr y \<Longrightarrow> \<exists>x. m = Inr x \<and> f x = Inr y"
  by (cases m) simp_all

lemma add_resource_reachable:
  assumes "add_resource iv r = Inr iv'" and "reachable iv"
  shows "reachable iv'"
proof -
  have h: "reachable iv'" if "add_host_resource iv r = Inr iv'"
    using that assms(2) unfolding add_host_resource_def
    by (auto dest!: err_bind_Inr intro: reachable.hosts)
  have hv: "reachable iv'" if "add_host_var_resource iv r = Inr iv'"
    using that assms(2) unfolding add_host_var_resource_def
    by (auto dest!: err_bind_Inr intro: reachable.hosts)
  have g: "reachable iv'" if "add_group_resource iv r = Inr iv'"
    using that assms(2) unfolding add_group_resource_def
    by (auto dest!: err_bind_Inr intro: reachable.groups)
  have gv: "reachable iv'" if "add_group_var_resource iv r = Inr iv'"
    using that assms(2) unfolding add_group_var_resource_def
    by (auto dest!: err_bind_Inr intro: reachable.groups)
  from assms show ?thesis
    unfolding add_resource_def
    by (auto dest!: err_bind_Inr split: if_splits intro: h hv g gv)
qed

lemma process_resources_reachable:
  "process_resources iv rs = Inr iv' \<Longrightarrow> reachable iv \<Longrightarrow> reachable iv'"
proof (induction rs arbitrary: iv)
  case Nil
  then show ?case by simp
next
  case (Cons r rs)
  from Cons.prems(1) obtain iv1 where 1: "process_resource iv r = Inr iv1"
    and 2: "process_resources iv1 rs = Inr iv'"
    by (auto dest!: err_bind_Inr)
  from 1 Cons.prems(2) have "reachable iv1"
    unfolding process_resource_def
    by (auto dest!: err_bind_Inr split: if_splits intro: add_resource_reachable)
  with 2 show ?case by (rule Cons.IH)
qed

lemma process_web1: "process_resources AnsibleInventory [web1] = Inr web1_inventory"
  by (simp add: web1_def web1_inventory_def TerraformResource_def process_resource_def
      is_ansible_def tf_type_def add_resource_def add_host_resource_def read_attr_def
      read_list_attr_def read_dict_attr_def raw_attributes_def)

lemma reachable_web1: "reachable web1_inventory"
  using process_web1 reachable.init by (rule process_resources_reachable)

lemma web1_host:
  "inv_hosts web1_inventory ''web1'' =
     Some (AnsibleHost ''web1'' (Some [''webservers'']) (Some [(''role'', JStr ''frontend'')]))"
  by (simp add: web1_inventory_def update_hosts_hosts AnsibleInventory_def AnsibleHost_def
      host_update_eq)

theorem universal_group_witness:
  "process_resources AnsibleInventory [web1] = Inr web1_inventory \<and>
   reachable web1_inventory \<and> inv_hosts web1_inventory ''web1'' \<noteq> None \<and>
   (\<exists>d. to_dict web1_inventory ''all'' = Some (Group d) \<and> ''web1'' \<in> set (hosts d))"
proof -
  have "inv_hosts web1_inventory ''web1'' \<noteq> None"
    by (simp add: web1_host)
  with universal_group [OF reachable_web1, of "''web1''"] process_web1 reachable_web1
  show ?thesis by simp
qed

theorem membership_invariant_witness:
  "membership_ok AnsibleInventory \<and> reachable web1_inventory \<and> membership_ok web1_inventory \<and>
   membership_ok (update_groups web1_inventory ''dbservers'' None (Some [''ghost'']) None) \<and>
   inv_hosts web1_inventory ''web1'' =
     Some (AnsibleHost ''web1'' (Some [''webservers'']) (Some [(''role'', JStr ''frontend'')])) \<and>
   ''webservers'' |\<in>|
     host_groups (AnsibleHost ''web1'' (Some [''webservers'']) (Some [(''role'', JStr ''frontend'')])) \<and>
   (\<exists>grp. inv_groups web1_inventory ''webservers'' = Some grp \<and> ''web1'' |\<in>| group_hosts grp)"
proof -
  have g: "''webservers'' |\<in>|
     host_groups (AnsibleHost ''web1'' (Some [''webservers'']) (Some [(''role'', JStr ''frontend'')]))"
    by (simp add: AnsibleHost_def host_update_eq)
  have i: "membership_ok AnsibleInventory"
    using membership_invariant [of AnsibleInventory] by simp
  then have w: "membership_ok web1_inventory"
    using membership_invariant [where iv = AnsibleInventory and n = "''web1''"
        and gs = "Some [''webservers'']" and vs = "Some [(''role'', JStr ''frontend'')]"]
    by (simp add: web1_inventory_def)
  then have u: "membership_ok (update_groups web1_inventory ''dbservers'' None (Some [''ghost'']) None)"
    using membership_invariant [where iv = web1_inventory and n = "''dbservers''"
        and cs = None and hs = "Some [''ghost'']" and gv = None]
    by simp
  have v: "membership_ok web1_inventory"
    using membership_invariant [where iv = web1_inventory] reachable_web1 by simp
  with web1_host g
  have "\<exists>grp. inv_groups web1_inventory ''webservers'' = Some grp \<and> ''web1'' |\<in>| group_hosts grp"
    unfolding membership_ok_def by blast
  with i w u reachable_web1 web1_host g show ?thesis by simp
qed

lemma is_ansible_type:
  "tf_type r = Inr (JStr t) \<Longrightarrow> is_ansible r = Inr (take 8 t = ''ansible_'')"
  by (simp add: is_ansible_def)

lemma hostvars_update_hosts:
  "hostvars (update_hosts iv n gs vs) n =
     Some (dict_update
       (host_vars (case inv_hosts iv n of None \<Rightarrow> AnsibleHost n None None | Some h \<Rightarrow> h))
       (items vs))"
  by (simp add: hostvars_def update_hosts_hosts host_update_eq get_vars_def host_tidy_def)

lemma to_dict_meta:
  "inv_groups iv ''_meta'' = None \<Longrightarrow> to_dict iv ''_meta'' = Some (Meta (hostvars iv))"
  by (simp add: to_dict_def)

text \<open>
  Two variable resources for the same key \<open>k\<close>, with values \<open>v1\<close> and then \<open>v2\<close>, processed
  one after the other from any inventory: when both are host variable resources of the same
  host, the variables \<open>to_dict\<close> collects for that host hold \<open>v2\<close> under \<open>k\<close>, and they are the
  \<^verbatim>\<open>hostvars\<close> of the document when no group is named \<^verbatim>\<open>_meta\<close>; when both are group
  variable resources of the same group, the \<^verbatim>\<open>vars\<close> of that group in the document hold \<open>v2\<close>
  under \<open>k\<close>.
\<close>

lemma last_write_wins:
  assumes "read_attr r1 ''key'' = Inr (JStr k)" and "read_attr r1 ''value'' = Inr v1"
    and "read_attr r2 ''key'' = Inr (JStr k)" and "read_attr r2 ''value'' = Inr v2"
  shows "(tf_type r1 = Inr (JStr ''ansible_host_var'') \<and>
          tf_type r2 = Inr (JStr ''ansible_host_var'') \<and>
          read_attr r1 ''inventory_hostname'' = Inr (JStr n) \<and>
          read_attr r2 ''inventory_hostname'' = Inr (JStr n) \<longrightarrow>
          (\<exists>iv2 m. process_resources iv [r1, r2] = Inr iv2 \<and>
             hostvars iv2 n = Some m \<and> m k = Some v2 \<and>
             (inv_groups iv2 ''_meta'' = None \<longrightarrow>
                to_dict iv2 ''_meta'' = Some (Meta (hostvars iv2))))) \<and>
         (tf_type r1 = Inr (JStr ''ansible_group_var'') \<and>
          tf_type r2 = Inr (JStr ''ansible_group_var'') \<and>
          read_attr r1 ''inventory_group_name'' = Inr (JStr n) \<and>
          read_attr r2 ''inventory_group_name'' = Inr (JStr n) \<longrightarrow>
          (\<exists>iv2 d. process_resources iv [r1, r2] = Inr iv2 \<and>
             to_dict iv2 n = Some (Group d) \<and> vars d k = Some v2))"
proof (intro conjI impI)
  assume a: "tf_type r1 = Inr (JStr ''ansible_host_var'') \<and>
          tf_type r2 = Inr (JStr ''ansible_host_var'') \<and>
          read_attr r1 ''inventory_hostname'' = Inr (JStr n) \<and>
          read_attr r2 ''inventory_hostname'' = Inr (JStr n)"
  let ?iv1 = "update_hosts iv n None (Some [(k, v1)])"
  let ?iv2 = "update_hosts ?iv1 n None (Some [(k, v2)])"
  from a assms have "process_resources iv [r1, r2] = Inr ?iv2"
    by (simp add: process_resource_def is_ansible_type add_resource_def
        add_host_var_resource_def)
  moreover have "\<exists>m. hostvars ?iv2 n = Some m \<and> m k = Some v2"
    by (simp add: hostvars_update_hosts)
  ultimately show "\<exists>iv2 m. process_resources iv [r1, r2] = Inr iv2 \<and>
             hostvars iv2 n = Some m \<and> m k = Some v2 \<and>
             (inv_groups iv2 ''_meta'' = None \<longrightarrow>
                to_dict iv2 ''_meta'' = Some (Meta (hostvars iv2)))"
    by (auto simp: to_dict_meta)
next
  assume a: "tf_type r1 = Inr (JStr ''ansible_group_var'') \<and>
          tf_type r2 = Inr (JStr ''ansible_group_var'') \<and>
          read_attr r1 ''inventory_group_name'' = Inr (JStr n) \<and>
          read_attr r2 ''inventory_group_name'' = Inr (JStr n)"
  let ?iv1 = "update_groups iv n None None (Some [(k, v1)])"
  let ?iv2 = "update_groups ?iv1 n None None (Some [(k, v2)])"
  from a assms have "process_resources iv [r1, r2] = Inr ?iv2"
    by (simp add: process_resource_def is_ansible_type add_resource_def
        add_group_var_resource_def)
  moreover have "\<exists>d. to_dict ?iv2 n = Some (Group d) \<and> vars d k = Some v2"
    by (simp add: to_dict_def update_groups_eq group_update_eq group_to_dict_def group_tidy_def)
  ultimately show "\<exists>iv2 d. process_resources iv [r1, r2] = Inr iv2 \<and>
             to_dict iv2 n = Some (Group d) \<and> vars d k = Some v2"
    by blast
qed

lemma host_update_idem: "host_update (host_update h gs vs) gs vs = host_update h gs vs"
  by (simp add: host_update_eq dict_update_idem)

lemma group_add_host_idem:
  "group_update (group_update g None (Some [n]) None) None (Some [n]) None =
   group_update g None (Some [n]) None"
  by (simp add: group_update_eq)

lemma update_hosts_idem:
  "update_hosts (update_hosts iv n gs vs) n gs vs = update_hosts iv n gs vs"
proof (rule ansible_inventory.equality)
  show "inv_hosts (update_hosts (update_hosts iv n gs vs) n gs vs) =
      inv_hosts (update_hosts iv n gs vs)"
    by (simp add: update_hosts_hosts host_update_idem)
  show "inv_groups (update_hosts (update_hosts iv n gs vs) n gs vs) =
      inv_groups (update_hosts iv n gs vs)"
    by (rule ext)
      (simp add: update_hosts_groups update_hosts_hosts host_update_idem group_add_host_idem)
  show "ansible_inventory.more (update_hosts (update_hosts iv n gs vs) n gs vs) =
      ansible_inventory.more (update_hosts iv n gs vs)"
    by simp
qed

text \<open>
  Claim C6. \<open>update_hosts\<close> with the same arguments a second time changes nothing: the
  inventory, and with it the group set and the variables of the host, is the one the first
  call left. So a host resource processed twice in succession leaves what it leaves when
  processed once.
\<close>

theorem host_resource_idempotent:
  "update_hosts (update_hosts iv n gs vs) n gs vs = update_hosts iv n gs vs \<and>
   (add_host_resource iv r = Inr iv1 \<longrightarrow> add_host_resource iv1 r = Inr iv1)"
proof
  show "update_hosts (update_hosts iv n gs vs) n gs vs = update_hosts iv n gs vs"
    by (rule update_hosts_idem)
  show "add_host_resource iv r = Inr iv1 \<longrightarrow> add_host_resource iv1 r = Inr iv1"
    unfolding add_host_resource_def
    by (auto dest!: err_bind_Inr simp: update_hosts_idem)
qed

theorem host_resource_idempotent_witness:
  "add_host_resource AnsibleInventory web1 = Inr web1_inventory \<and>
   add_host_resource web1_inventory web1 = Inr web1_inventory"
proof -
  have 1: "add_host_resource AnsibleInventory web1 = Inr web1_inventory"
    by (simp add: web1_def web1_inventory_def TerraformResource_def add_host_resource_def
        read_attr_def read_list_attr_def read_dict_attr_def raw_attributes_def)
  with host_resource_idempotent [of AnsibleInventory "''web1''" None None web1 web1_inventory]
  show ?thesis by simp
qed

text \<open>
  Claim C7. A resource whose type is not one of the four handled types is not dispatched by
  \<open>add_resource\<close>, and a resource whose type does not start with \<^verbatim>\<open>ansible_\<close> is skipped by
  the loop before that: the inventory is returned as it was. Nothing is assumed of the
  attributes, which may be missing altogether, so none is read.
\<close>

theorem other_types_skipped:
  assumes "tf_type r = Inr (JStr t)"
  shows "(t \<notin> {''ansible_host'', ''ansible_host_var'', ''ansible_group'', ''ansible_group_var''}
            \<longrightarrow> add_resource iv r = Inr iv) \<and>
         (take 8 t \<noteq> ''ansible_'' \<or>
          t \<notin> {''ansible_host'', ''ansible_host_var'', ''ansible_group'', ''ansible_group_var''}
            \<longrightarrow> process_resource iv r = Inr iv)"
  using assms
  by (auto simp: process_resource_def add_resource_def is_ansible_type)

theorem other_types_skipped_witness:
  "tf_type aws_instance = Inr (JStr ''aws_instance'') \<and>
   raw_attributes aws_instance = Inl KeyError \<and>
   process_resource web1_inventory aws_instance = Inr web1_inventory \<and>
   tf_type ansible_playbook = Inr (JStr ''ansible_playbook'') \<and>
   raw_attributes ansible_playbook = Inl KeyError \<and>
   add_resource web1_inventory ansible_playbook = Inr web1_inventory \<and>
   process_resource web1_inventory ansible_playbook = Inr web1_inventory"
proof -
  have t: "tf_type aws_instance = Inr (JStr ''aws_instance'')"
    by (simp add: aws_instance_def TerraformResource_def tf_type_def)
  have u: "tf_type ansible_playbook = Inr (JStr ''ansible_playbook'')"
    by (simp add: ansible_playbook_def TerraformResource_def tf_type_def)
  have "raw_attributes aws_instance = Inl KeyError"
    "raw_attributes ansible_playbook = Inl KeyError"
    by (simp_all add: aws_instance_def ansible_playbook_def TerraformResource_def
        raw_attributes_def)
  with other_types_skipped [OF t, of web1_inventory]
    other_types_skipped [OF u, of web1_inventory] t u
  show ?thesis by simp
qed

subsection \<open>The document\<close>

lemma last_write_wins_example:
  "read_attr db_port_1 ''value'' = Inr (JStr ''5432'') \<and>
   read_attr db_port_2 ''value'' = Inr (JStr ''6432'') \<and>
   (\<exists>iv2 m. process_resources AnsibleInventory [db_port_1, db_port_2] = Inr iv2 \<and>
      hostvars iv2 ''db1'' = Some m \<and> m ''port'' = Some (JStr ''6432'') \<and>
      (inv_groups iv2 ''_meta'' = None \<longrightarrow> to_dict iv2 ''_meta'' = Some (Meta (hostvars iv2)))) \<and>
   read_attr web_env_1 ''value'' = Inr (JStr ''staging'') \<and>
   read_attr web_env_2 ''value'' = Inr (JStr ''production'') \<and>
   (\<exists>iv2 d. process_resources AnsibleInventory [web_env_1, web_env_2] = Inr iv2 \<and>
      to_dict iv2 ''web'' = Some (Group d) \<and> vars d ''env'' = Some (JStr ''production''))"
proof -
  have r: "read_attr db_port_1 ''key'' = Inr (JStr ''port'')"
    "read_attr db_port_1 ''value'' = Inr (JStr ''5432'')"
    "read_attr db_port_2 ''key'' = Inr (JStr ''port'')"
    "read_attr db_port_2 ''value'' = Inr (JStr ''6432'')"
    by (simp_all add: db_port_1_def db_port_2_def TerraformResource_def read_attr_def
        raw_attributes_def)
  have t: "tf_type db_port_1 = Inr (JStr ''ansible_host_var'')"
    "tf_type db_port_2 = Inr (JStr ''ansible_host_var'')"
    "read_attr db_port_1 ''inventory_hostname'' = Inr (JStr ''db1'')"
    "read_attr db_port_2 ''inventory_hostname'' = Inr (JStr ''db1'')"
    by (simp_all add: db_port_1_def db_port_2_def TerraformResource_def read_attr_def
        raw_attributes_def tf_type_def)
  have r': "read_attr web_env_1 ''key'' = Inr (JStr ''env'')"
    "read_attr web_env_1 ''value'' = Inr (JStr ''staging'')"
    "read_attr web_env_2 ''key'' = Inr (JStr ''env'')"
    "read_attr web_env_2 ''value'' = Inr (JStr ''production'')"
    by (simp_all add: web_env_1_def web_env_2_def TerraformResource_def read_attr_def
        raw_attributes_def)
  have t': "tf_type web_env_1 = Inr (JStr ''ansible_group_var'')"
    "tf_type web_env_2 = Inr (JStr ''ansible_group_var'')"
    "read_attr web_env_1 ''inventory_group_name'' = Inr (JStr ''web'')"
    "read_attr web_env_2 ''inventory_group_name'' = Inr (JStr ''web'')"
    by (simp_all add: web_env_1_def web_env_2_def TerraformResource_def read_attr_def
        raw_attributes_def tf_type_def)
  have "\<exists>iv2 m. process_resources AnsibleInventory [db_port_1, db_port_2] = Inr iv2 \<and>
      hostvars iv2 ''db1'' = Some m \<and> m ''port'' = Some (JStr ''6432'') \<and>
      (inv_groups iv2 ''_meta'' = None \<longrightarrow> to_dict iv2 ''_meta'' = Some (Meta (hostvars iv2)))"
    using last_write_wins [OF r, of "''db1''" AnsibleInventory] t by blast
  moreover have "\<exists>iv2 d. process_resources AnsibleInventory [web_env_1, web_env_2] = Inr iv2 \<and>
      to_dict iv2 ''web'' = Some (Group d) \<and> vars d ''env'' = Some (JStr ''production'')"
    using last_write_wins [OF r', of "''web''" AnsibleInventory] t' by blast
  ultimately show ?thesis using r r' by blast
qed

lemma sorted_list_of_fset_sorted:
  "sorted (sorted_list_of_fset S)" "distinct (sorted_list_of_fset S)"
  by (simp_all add: sorted_list_of_fset.rep_eq)

text \<open>
  Claim C9. The \<^verbatim>\<open>children\<close> and \<^verbatim>\<open>hosts\<close> lists of every group of the document, and the
  group list of every tidied host, are sorted (strictly: no name twice) in the
  lexicographic order of strings; groups and hosts made from lists with the same elements,
  in any order and multiplicity, give the same lists.
\<close>

theorem lists_sorted:
  "(to_dict iv g = Some (Group d) \<longrightarrow>
      sorted (children d) \<and> distinct (children d) \<and> sorted (hosts d) \<and> distinct (hosts d)) \<and>
   (tidy_hosts iv h = Some th \<longrightarrow>
      sorted (tidy_host_groups th) \<and> distinct (tidy_host_groups th)) \<and>
   (set cs = set cs' \<and> set hs = set hs' \<longrightarrow>
      group_to_dict (group_tidy (AnsibleGroup n (Some cs) (Some hs) gv)) =
      group_to_dict (group_tidy (AnsibleGroup n (Some cs') (Some hs') gv))) \<and>
   (set gs = set gs' \<longrightarrow>
      tidy_host_groups (host_tidy (AnsibleHost n (Some gs) hv)) =
      tidy_host_groups (host_tidy (AnsibleHost n (Some gs') hv)))"
proof -
  have 1: "to_dict iv g = Some (Group d) \<longrightarrow>
      sorted (children d) \<and> distinct (children d) \<and> sorted (hosts d) \<and> distinct (hosts d)"
  proof
    assume "to_dict iv g = Some (Group d)"
    then obtain grp where "d = group_to_dict (group_tidy grp)"
      by (auto simp: to_dict_def split: option.splits if_splits)
    then show "sorted (children d) \<and> distinct (children d) \<and> sorted (hosts d) \<and> distinct (hosts d)"
      by (simp add: group_to_dict_def group_tidy_def sorted_list_of_fset_sorted)
  qed
  have 2: "tidy_hosts iv h = Some th \<longrightarrow>
      sorted (tidy_host_groups th) \<and> distinct (tidy_host_groups th)"
  proof
    assume "tidy_hosts iv h = Some th"
    then obtain host where "th = host_tidy host"
      by (auto simp: tidy_hosts_def)
    then show "sorted (tidy_host_groups th) \<and> distinct (tidy_host_groups th)"
      by (simp add: host_tidy_def sorted_list_of_fset_sorted)
  qed
  have 3: "set cs = set cs' \<and> set hs = set hs' \<longrightarrow>
      group_to_dict (group_tidy (AnsibleGroup n (Some cs) (Some hs) gv)) =
      group_to_dict (group_tidy (AnsibleGroup n (Some cs') (Some hs') gv))"
  proof
    assume "set cs = set cs' \<and> set hs = set hs'"
    then have "fset_of_list cs = fset_of_list cs'" "fset_of_list hs = fset_of_list hs'"
      by (simp_all add: fset_of_list.rep_eq fset_inject [symmetric])
    then show "group_to_dict (group_tidy (AnsibleGroup n (Some cs) (Some hs) gv)) =
        group_to_dict (group_tidy (AnsibleGroup n (Some cs') (Some hs') gv))"
      by (simp add: AnsibleGroup_def group_update_eq group_tidy_def)
  qed
  have 4: "set gs = set gs' \<longrightarrow>
      tidy_host_groups (host_tidy (AnsibleHost n (Some gs) hv)) =
      tidy_host_groups (host_tidy (AnsibleHost n (Some gs') hv))"
  proof
    assume "set gs = set gs'"
    then have "fset_of_list gs = fset_of_list gs'"
      by (simp add: fset_of_list.rep_eq fset_inject [symmetric])
    then show "tidy_host_groups (host_tidy (AnsibleHost n (Some gs) hv)) =
        tidy_host_groups (host_tidy (AnsibleHost n (Some gs') hv))"
      by (simp add: AnsibleHost_def host_update_eq host_tidy_def)
  qed
  show ?thesis
    by (rule conjI [OF 1 conjI [OF 2 conjI [OF 3 4]]])
qed

text \<open>
  Claim C8. \<open>update_groups\<close> leaves the hosts of the inventory as they are: a name that is
  not a host before the call is not one after it, and has no entry in the host variables
  of the document, while the \<^verbatim>\<open>hosts\<close> list (the \<^verbatim>\<open>children\<close> list) of the group in the
  document holds every name passed as a host (a child).
\<close>

theorem group_members_not_hosts:
  assumes "inv_hosts iv h = None"
  shows "inv_hosts (update_groups iv g cs hs gv) = inv_hosts iv \<and>
         hostvars (update_groups iv g cs hs gv) h = None \<and>
         (\<forall>hv. to_dict (update_groups iv g cs hs gv) ''_meta'' = Some (Meta hv) \<longrightarrow> hv h = None) \<and>
         (\<forall>xs. hs = Some xs \<and> h \<in> set xs \<longrightarrow>
            (\<exists>d. to_dict (update_groups iv g cs hs gv) g = Some (Group d) \<and> h \<in> set (hosts d))) \<and>
         (\<forall>xs. cs = Some xs \<and> h \<in> set xs \<longrightarrow>
            (\<exists>d. to_dict (update_groups iv g cs hs gv) g = Some (Group d) \<and> h \<in> set (children d)))"
proof (intro conjI allI impI)
  show "inv_hosts (update_groups iv g cs hs gv) = inv_hosts iv"
    by simp
  show hv: "hostvars (update_groups iv g cs hs gv) h = None"
    using assms by (simp add: hostvars_def)
  show "hv' h = None" if "to_dict (update_groups iv g cs hs gv) ''_meta'' = Some (Meta hv')" for hv'
    using that hv by (auto simp: to_dict_def split: option.splits if_splits)
  show "\<exists>d. to_dict (update_groups iv g cs hs gv) g = Some (Group d) \<and> h \<in> set (hosts d)"
    if "hs = Some xs \<and> h \<in> set xs" for xs
    using that
    by (simp add: to_dict_def update_groups_eq group_update_eq group_to_dict_def group_tidy_def
        fset_of_list.rep_eq)
  show "\<exists>d. to_dict (update_groups iv g cs hs gv) g = Some (Group d) \<and> h \<in> set (children d)"
    if "cs = Some xs \<and> h \<in> set xs" for xs
    using that
    by (simp add: to_dict_def update_groups_eq group_update_eq group_to_dict_def group_tidy_def
        fset_of_list.rep_eq)
qed

theorem group_members_not_hosts_witness:
  "inv_hosts web1_inventory ''ghost'' = None \<and>
   hostvars (update_groups web1_inventory ''dbservers'' None (Some [''ghost'']) None) ''ghost'' = None \<and>
   (\<exists>d. to_dict (update_groups web1_inventory ''dbservers'' None (Some [''ghost'']) None)
           ''dbservers'' = Some (Group d) \<and> ''ghost'' \<in> set (hosts d)) \<and>
   (\<exists>d. to_dict (update_groups web1_inventory ''dbservers'' (Some [''ghost'']) None None)
           ''dbservers'' = Some (Group d) \<and> ''ghost'' \<in> set (children d))"
proof -
  have n: "inv_hosts web1_inventory ''ghost'' = None"
    by (simp add: web1_inventory_def update_hosts_hosts AnsibleInventory_def)
  from group_members_not_hosts [OF n, of "''dbservers''" None "Some [''ghost'']" None]
    group_members_not_hosts [OF n, of "''dbservers''" "Some [''ghost'']" None None] n
  show ?thesis by simp
qed

lemma sorted_two: "sorted_list_of_fset {|''webservers'', ''all''|} = [''all'', ''webservers'']"
  by code_simp

theorem lists_sorted_witness:
  "to_dict web1_inventory ''all'' =
     Some (Group \<lparr>children = [], hosts = [''web1''], vars = Map.empty\<rparr>) \<and>
   sorted (hosts \<lparr>children = [], hosts = [''web1''], vars = Map.empty\<rparr>) \<and>
   tidy_hosts web1_inventory ''web1'' =
     Some \<lparr>tidy_hostname = ''web1'', tidy_host_groups = [''all'', ''webservers''],
           tidy_host_vars = [''role'' \<mapsto> JStr ''frontend'']\<rparr> \<and>
   sorted [''all'', ''webservers''] \<and>
   group_to_dict (group_tidy (AnsibleGroup ''g'' (Some [''b'', ''a'']) (Some [''y'', ''x'', ''y'']) None)) =
   group_to_dict (group_tidy (AnsibleGroup ''g'' (Some [''a'', ''b'']) (Some [''x'', ''y'']) None)) \<and>
   tidy_host_groups (host_tidy (AnsibleHost ''g'' (Some [''b'', ''a'', ''b'']) None)) =
   tidy_host_groups (host_tidy (AnsibleHost ''g'' (Some [''a'', ''b'']) None))"
proof -
  have "inv_groups web1_inventory ''all'' =
      Some (AnsibleGroup ''all'' None (Some [''web1'']) None)"
    by (simp add: web1_inventory_def update_hosts_groups AnsibleInventory_def AnsibleHost_def
        host_update_eq AnsibleGroup_def group_update_eq)
  then have d: "to_dict web1_inventory ''all'' =
     Some (Group \<lparr>children = [], hosts = [''web1''], vars = Map.empty\<rparr>)"
    by (simp add: to_dict_def group_to_dict_def group_tidy_def AnsibleGroup_def group_update_eq
        sorted_list_of_fset.rep_eq)
  have h: "tidy_hosts web1_inventory ''web1'' =
     Some \<lparr>tidy_hostname = ''web1'', tidy_host_groups = [''all'', ''webservers''],
           tidy_host_vars = [''role'' \<mapsto> JStr ''frontend'']\<rparr>"
    by (simp add: tidy_hosts_def web1_host AnsibleHost_def host_update_eq host_tidy_def
        sorted_two)
  have s: "set [''b'', ''a''] = set [''a'', ''b''] \<and> set [''y'', ''x'', ''y''] = set [''x'', ''y'']"
    "set [''b'', ''a'', ''b''] = set [''a'', ''b'']"
    by auto
  from lists_sorted [where iv = web1_inventory and g = "''all''"
      and d = "\<lparr>children = [], hosts = [''web1''], vars = Map.empty\<rparr>"
      and h = "''web1''"
      and th = "\<lparr>tidy_hostname = ''web1'', tidy_host_groups = [''all'', ''webservers''],
           tidy_host_vars = [''role'' \<mapsto> JStr ''frontend'']\<rparr>"
      and cs = "[''b'', ''a'']" and cs' = "[''a'', ''b'']"
      and hs = "[''y'', ''x'', ''y'']" and hs' = "[''x'', ''y'']" and n = "''g''" and gv = None
      and gs = "[''b'', ''a'', ''b'']" and gs' = "[''a'', ''b'']" and hv = None] d h s
  show ?thesis by simp
qed

text \<open>
  Claim C5 at an inventory with a group named \<^verbatim>\<open>_meta\<close>: after two host variable resources
  for the host \<^verbatim>\<open>db1\<close> and the key \<^verbatim>\<open>port\<close>, the variables collected for the host hold the
  later value, and the document holds neither: its key \<^verbatim>\<open>_meta\<close> is the dictionary of the
  group, which has taken the place of \<^verbatim>\<open>hostvars\<close>, and its only other key is \<^verbatim>\<open>all\<close>.
\<close>

theorem hostvars_lost_to_group_meta:
  "process_resources AnsibleInventory [db_port_1, db_port_2, meta_group] = Inr meta_inventory \<and>
   hostvars meta_inventory ''db1'' = Some [''port'' \<mapsto> JStr ''6432''] \<and>
   to_dict meta_inventory ''_meta'' =
     Some (Group \<lparr>children = [], hosts = [], vars = Map.empty\<rparr>) \<and>
   to_dict meta_inventory ''all'' =
     Some (Group \<lparr>children = [], hosts = [''db1''], vars = Map.empty\<rparr>) \<and>
   dom (to_dict meta_inventory) = {''_meta'', ''all''}"
proof -
  have p: "process_resources AnsibleInventory [db_port_1, db_port_2, meta_group] =
      Inr meta_inventory"
    by (simp add: db_port_1_def db_port_2_def meta_group_def meta_inventory_def
        TerraformResource_def process_resource_def is_ansible_def tf_type_def add_resource_def
        add_host_var_resource_def add_group_resource_def read_attr_def read_list_attr_def
        read_dict_attr_def raw_attributes_def)
  have h: "hostvars meta_inventory ''db1'' = Some [''port'' \<mapsto> JStr ''6432'']"
    by (simp add: meta_inventory_def hostvars_def update_hosts_hosts host_update_eq
        AnsibleInventory_def AnsibleHost_def get_vars_def host_tidy_def)
  have g: "inv_groups meta_inventory =
      [''all'' \<mapsto> AnsibleGroup ''all'' None (Some [''db1'']) None,
       ''_meta'' \<mapsto> AnsibleGroup ''_meta'' None None None]"
    by (rule ext)
      (simp add: meta_inventory_def update_groups_eq update_hosts_groups update_hosts_hosts
        host_update_eq group_update_eq AnsibleInventory_def AnsibleHost_def AnsibleGroup_def)
  have m: "to_dict meta_inventory ''_meta'' =
      Some (Group \<lparr>children = [], hosts = [], vars = Map.empty\<rparr>)"
    by (simp add: to_dict_def g AnsibleGroup_def group_update_eq group_to_dict_def
        group_tidy_def sorted_list_of_fset.rep_eq)
  have a: "to_dict meta_inventory ''all'' =
      Some (Group \<lparr>children = [], hosts = [''db1''], vars = Map.empty\<rparr>)"
    by (simp add: to_dict_def g AnsibleGroup_def group_update_eq group_to_dict_def
        group_tidy_def sorted_list_of_fset.rep_eq)
  have d: "dom (to_dict meta_inventory) = {''_meta'', ''all''}"
    by (auto simp: to_dict_def g dom_def split: option.splits if_splits)
  from p h m a d show ?thesis by simp
qed

end
